theory Spec2Isabelle
  imports Complex_Main "HOL-Library.AList"
begin

section \<open>Python values\<close>

text \<open>
  A Python \<open>str\<close> is a sequence of Unicode code points; it is modelled as the list of
  its code points, so that the length and the membership tests of the source count what
  Python counts.  \<open>asc\<close> writes an ASCII literal.
\<close>

type_synonym ustr = "nat list"

definition asc :: "string \<Rightarrow> ustr" where
  "asc s = map of_char s"

text \<open>
  A Python \<open>float\<close> as \<open>json.loads\<close> can produce it: a finite value (every double is a
  rational), the two infinities, or not-a-number.  No operation of the program rounds.
\<close>

datatype pyfloat = Fin rat | PosInf | NegInf | NaN

text \<open>
  What \<open>json.loads\<close> returns: \<open>None\<close>, \<open>bool\<close>, \<open>int\<close>, \<open>float\<close>, \<open>str\<close>, \<open>list\<close>,
  and \<open>dict\<close> with string keys, in insertion order.
\<close>

datatype json =
    JNull
  | JBool bool
  | JInt int
  | JFloat pyfloat
  | JStr ustr
  | JList "json list"
  | JDict "(ustr \<times> json) list"

type_synonym jdict = "(ustr \<times> json) list"

text \<open>The exceptions that the program and the runtime functions it calls can raise.\<close>

datatype py_exc =
    ValueError ustr
  | TypeError
  | AttributeError
  | KeyError
  | OverflowError
  | RequestError

text \<open>\<open>d.get(k)\<close>, \<open>d.get(k, default)\<close> and \<open>d[k] = v\<close> on a dict.\<close>

definition dict_get :: "jdict \<Rightarrow> ustr \<Rightarrow> json" where
  "dict_get d k = (case map_of d k of None \<Rightarrow> JNull | Some v \<Rightarrow> v)"

definition dict_get_or :: "jdict \<Rightarrow> ustr \<Rightarrow> json \<Rightarrow> json" where
  "dict_get_or d k dflt = (case map_of d k of None \<Rightarrow> dflt | Some v \<Rightarrow> v)"

definition dict_set :: "jdict \<Rightarrow> ustr \<Rightarrow> json \<Rightarrow> jdict" where
  "dict_set d k v = AList.update k v d"

text \<open>Truthiness of a value (\<open>not x\<close>, \<open>x or y\<close>, \<open>if x\<close>).\<close>

fun truthy :: "json \<Rightarrow> bool" where
  "truthy JNull = False"
| "truthy (JBool b) = b"
| "truthy (JInt n) = (n \<noteq> 0)"
| "truthy (JFloat f) = (f \<noteq> Fin 0)"
| "truthy (JStr s) = (s \<noteq> [])"
| "truthy (JList xs) = (xs \<noteq> [])"
| "truthy (JDict d) = (d \<noteq> [])"

text \<open>
  \<open>str.isspace\<close> of one code point (the same table serves \<open>str.strip\<close> and the
  \<open>\s\<close> of \<open>re\<close> on \<open>str\<close> patterns), and \<open>str.strip()\<close>.
\<close>

definition is_space :: "nat \<Rightarrow> bool" where
  "is_space c \<longleftrightarrow>
     (9 \<le> c \<and> c \<le> 13) \<or> (28 \<le> c \<and> c \<le> 32) \<or> c = 133 \<or> c = 160 \<or> c = 5760
     \<or> (8192 \<le> c \<and> c \<le> 8202) \<or> c = 8232 \<or> c = 8233 \<or> c = 8239 \<or> c = 8287
     \<or> c = 12288"

definition strip :: "ustr \<Rightarrow> ustr" where
  "strip s = rev (dropWhile is_space (rev (dropWhile is_space s)))"

section \<open>Structured-object extractor\<close>

text \<open>
  The loop of \<open>extract_first_json_object\<close>, from the first opening brace on:
  \<open>acc\<close> is \<open>text[start:i]\<close>, \<open>depth\<close> the counter.  The result is the candidate
  \<open>text[start:i + 1]\<close> handed to \<open>json.loads\<close>, or \<open>None\<close> when the text ends first.
\<close>

fun scan_braces :: "ustr \<Rightarrow> int \<Rightarrow> ustr \<Rightarrow> ustr option" where
  "scan_braces [] depth acc = None"
| "scan_braces (ch # rest) depth acc =
     (if ch = 123 then scan_braces rest (depth + 1) (acc @ [ch])
      else if ch = 125 then
        (if depth - 1 = 0 then Some (acc @ [ch])
         else scan_braces rest (depth - 1) (acc @ [ch]))
      else scan_braces rest depth (acc @ [ch]))"

definition first_candidate :: "ustr \<Rightarrow> ustr option" where
  "first_candidate text =
     (if text = [] then None
      else scan_braces (dropWhile (\<lambda>c. c \<noteq> 123) text) 0 [])"

text \<open>
  \<open>loads\<close> is \<open>json.loads\<close> under the \<open>try\<close> of the source: \<open>None\<close> when it raises.
  It belongs to the Python library and is a parameter.
\<close>

definition extract_first_json_object :: "(ustr \<Rightarrow> json option) \<Rightarrow> ustr \<Rightarrow> json option" where
  "extract_first_json_object loads text =
     (case first_candidate text of
        None \<Rightarrow> None
      | Some candidate \<Rightarrow> loads candidate)"

section \<open>Language compliance filter\<close>

definition contains_cjk :: "ustr \<Rightarrow> bool" where
  "contains_cjk text = list_ex (\<lambda>c. 19968 \<le> c \<and> c \<le> 40959) text"

definition FALLBACK :: ustr where
  "FALLBACK =
     [54620, 44397, 50612, 47196, 47564] @ asc '' '' @ [52636, 47141, 54644, 50556]
     @ asc '' '' @ [54616, 45208] @ asc '', '' @ [47784, 45944] @ asc '' ''
     @ [52636, 47141, 50640] @ asc '' '' @ [48708, 54620, 44397, 50612] @ asc '' ''
     @ [47928, 44396, 44032] @ asc '' '' @ [54252, 54632, 46104, 50612] @ asc '' ''
     @ [51068, 48512] @ asc '' '' @ [45236, 50857, 51012] @ asc '' ''
     @ [49373, 47029, 54664, 49845, 45768, 45796] @ asc ''.''"

definition fix_str :: "ustr \<Rightarrow> ustr" where
  "fix_str s = (if contains_cjk s then FALLBACK else s)"

primrec walk :: "json \<Rightarrow> json" where
  "walk JNull = JNull"
| "walk (JBool b) = JBool b"
| "walk (JInt n) = JInt n"
| "walk (JFloat f) = JFloat f"
| "walk (JStr s) = JStr (fix_str s)"
| "walk (JList xs) = JList (map walk xs)"
| "walk (JDict kvs) = JDict (map (map_prod id walk) kvs)"

definition sanitize_korean_only :: "json \<Rightarrow> json" where
  "sanitize_korean_only obj = walk obj"

text \<open>
  Vocabulary for stating what the sanitizer preserves: the leaf strings of a value in
  document order, the value with every leaf string blanked (its shape, keys and
  non-string leaves), and the test whether a disallowed code point occurs anywhere in a
  value, keys included.
\<close>

primrec json_leaves :: "json \<Rightarrow> ustr list" where
  "json_leaves JNull = []"
| "json_leaves (JBool b) = []"
| "json_leaves (JInt n) = []"
| "json_leaves (JFloat f) = []"
| "json_leaves (JStr s) = [s]"
| "json_leaves (JList xs) = concat (map json_leaves xs)"
| "json_leaves (JDict kvs) = concat (map snd (map (map_prod id json_leaves) kvs))"

primrec json_skeleton :: "json \<Rightarrow> json" where
  "json_skeleton JNull = JNull"
| "json_skeleton (JBool b) = JBool b"
| "json_skeleton (JInt n) = JInt n"
| "json_skeleton (JFloat f) = JFloat f"
| "json_skeleton (JStr s) = JStr []"
| "json_skeleton (JList xs) = JList (map json_skeleton xs)"
| "json_skeleton (JDict kvs) = JDict (map (map_prod id json_skeleton) kvs)"

primrec json_has_cjk :: "json \<Rightarrow> bool" where
  "json_has_cjk JNull = False"
| "json_has_cjk (JBool b) = False"
| "json_has_cjk (JInt n) = False"
| "json_has_cjk (JFloat f) = False"
| "json_has_cjk (JStr s) = contains_cjk s"
| "json_has_cjk (JList xs) = list_ex id (map json_has_cjk xs)"
| "json_has_cjk (JDict kvs) =
     list_ex (\<lambda>kb. contains_cjk (fst kb) \<or> snd kb) (map (map_prod id json_has_cjk) kvs)"

section \<open>Deterministic hint extractor\<close>

text \<open>
  The Unicode tables and the case mapping of the Python runtime, which the patterns
  \<open>\b\<close> and \<open>\d\<close>, \<open>int\<close> and \<open>str.lower\<close> consult.  They are not part of the
  repository and are parameters: \<open>u_isalnum\<close> is \<open>str.isalnum\<close> of one code point,
  \<open>u_decimal\<close> the value of a decimal digit (\<open>None\<close> for any other code point),
  \<open>u_lower\<close> is \<open>str.lower\<close>.
\<close>

record unicode =
  u_isalnum :: "nat \<Rightarrow> bool"
  u_decimal :: "nat \<Rightarrow> nat option"
  u_lower :: "ustr \<Rightarrow> ustr"

text \<open>A word character of \<open>re\<close> (\<open>\w\<close>), and \<open>\b\<close> between two neighbours, either of
  which may be missing at the ends of the text.\<close>

definition is_word :: "unicode \<Rightarrow> nat option \<Rightarrow> bool" where
  "is_word U c = (case c of None \<Rightarrow> False | Some x \<Rightarrow> u_isalnum U x \<or> x = 95)"

definition boundary :: "unicode \<Rightarrow> nat option \<Rightarrow> nat option \<Rightarrow> bool" where
  "boundary U prev nxt = (is_word U prev \<noteq> is_word U nxt)"

text \<open>
  The classes \<open>[a-z0-9]\<close> and \<open>[a-z0-9\-]\<close> under \<open>re.IGNORECASE\<close>: the ASCII letters of
  both cases, the digits, and the four letters U+0130, U+0131, U+017F, U+212A that
  case-insensitive matching adds.
\<close>

definition in_class_head :: "nat \<Rightarrow> bool" where
  "in_class_head c \<longleftrightarrow>
     (97 \<le> c \<and> c \<le> 122) \<or> (65 \<le> c \<and> c \<le> 90) \<or> (48 \<le> c \<and> c \<le> 57)
     \<or> c = 304 \<or> c = 305 \<or> c = 383 \<or> c = 8490"

definition in_class_tail :: "nat \<Rightarrow> bool" where
  "in_class_tail c \<longleftrightarrow> in_class_head c \<or> c = 45"

text \<open>
  One literal character \<open>p\<close> of a pattern against the character \<open>c\<close> of the text under
  \<open>re.IGNORECASE\<close>.  The literals of the two patterns are lower-case ASCII letters and
  Hangul syllables; a Hangul syllable has no case and matches itself only.
\<close>

definition ic_match :: "nat \<Rightarrow> nat \<Rightarrow> bool" where
  "ic_match p c \<longleftrightarrow>
     c = p \<or> (65 \<le> c \<and> c \<le> 90 \<and> c + 32 = p)
     \<or> (p = 115 \<and> c = 383) \<or> (p = 105 \<and> (c = 304 \<or> c = 305)) \<or> (p = 107 \<and> c = 8490)"

definition lit_match :: "ustr \<Rightarrow> ustr \<Rightarrow> ustr option" where
  "lit_match kw text =
     (if length kw \<le> length text \<and> list_all2 ic_match kw (take (length kw) text)
      then Some (drop (length kw) text) else None)"

definition head_opt :: "ustr \<Rightarrow> nat option" where
  "head_opt s = (case s of [] \<Rightarrow> None | c # _ \<Rightarrow> Some c)"

text \<open>The tail \<open>(kw1|kw2)\b\<close> of the two patterns: the alternatives in order.\<close>

definition alt_then_b :: "unicode \<Rightarrow> ustr list \<Rightarrow> ustr \<Rightarrow> bool" where
  "alt_then_b U kws text =
     list_ex (\<lambda>kw. case lit_match kw text of
                None \<Rightarrow> False
              | Some rest \<Rightarrow> kw \<noteq> [] \<and> boundary U (Some (text ! (length kw - 1))) (head_opt rest))
       kws"

text \<open>\<open>\s*\<close>, greedy with backtracking, followed by the tail.\<close>

fun spaces_then :: "unicode \<Rightarrow> ustr list \<Rightarrow> ustr \<Rightarrow> bool" where
  "spaces_then U kws [] = alt_then_b U kws []"
| "spaces_then U kws (c # cs) =
     ((is_space c \<and> spaces_then U kws cs) \<or> alt_then_b U kws (c # cs))"

text \<open>
  \<open>[a-z0-9\-]*\<close> of group 1, greedy with backtracking: the longest token first, a
  shorter one when the rest of the pattern fails after it.  \<open>acc\<close> is the token so far.
\<close>

fun token_tail :: "unicode \<Rightarrow> ustr list \<Rightarrow> ustr \<Rightarrow> ustr \<Rightarrow> ustr option" where
  "token_tail U kws acc [] = (if spaces_then U kws [] then Some acc else None)"
| "token_tail U kws acc (c # cs) =
     (case (if in_class_tail c then token_tail U kws (acc @ [c]) cs else None) of
        Some g \<Rightarrow> Some g
      | None \<Rightarrow> if spaces_then U kws (c # cs) then Some acc else None)"

definition match_at :: "unicode \<Rightarrow> ustr list \<Rightarrow> nat option \<Rightarrow> ustr \<Rightarrow> ustr option" where
  "match_at U kws prev text =
     (case text of
        [] \<Rightarrow> None
      | c # cs \<Rightarrow>
          if boundary U prev (Some c) \<and> in_class_head c then token_tail U kws [c] cs
          else None)"

text \<open>\<open>re.search\<close>: the leftmost position where the pattern matches; the result is group 1.\<close>

fun re_search_token :: "unicode \<Rightarrow> ustr list \<Rightarrow> nat option \<Rightarrow> ustr \<Rightarrow> ustr option" where
  "re_search_token U kws prev [] = None"
| "re_search_token U kws prev (c # cs) =
     (case match_at U kws prev (c # cs) of
        Some g \<Rightarrow> Some g
      | None \<Rightarrow> re_search_token U kws (Some c) cs)"

definition extract_namespace_from_question :: "unicode \<Rightarrow> ustr \<Rightarrow> ustr option" where
  "extract_namespace_from_question U question =
     map_option strip
       (re_search_token U [[45348, 51076, 49828, 54168, 51060, 49828], asc ''namespace'']
          None question)"

definition extract_cluster_from_question :: "unicode \<Rightarrow> ustr \<Rightarrow> ustr option" where
  "extract_cluster_from_question U question =
     map_option strip
       (re_search_token U [[53364, 47084, 49828, 53552], asc ''cluster''] None question)"

text \<open>
  \<open>parse_window_minutes_ko\<close>.  The five units in the order of the alternation of the
  pattern (week twice, day, hour, minute), written as code points, each with the factor
  the source multiplies by.
\<close>

definition window_units :: "(ustr \<times> int) list" where
  "window_units =
     [([51452, 51068], 7 * 24 * 60), ([51452], 7 * 24 * 60), ([51068], 24 * 60),
      ([49884, 44036], 60), ([48516], 1)]"

definition is_prefix :: "ustr \<Rightarrow> ustr \<Rightarrow> bool" where
  "is_prefix p s \<longleftrightarrow> take (length p) s = p"

definition unit_here :: "ustr \<Rightarrow> int option" where
  "unit_here text = map_option snd (find (\<lambda>u. is_prefix (fst u) text) window_units)"

text \<open>\<open>int\<close> of a string of decimal digits.\<close>

definition int_of_digits :: "unicode \<Rightarrow> ustr \<Rightarrow> int" where
  "int_of_digits U ds =
     foldl (\<lambda>n c. 10 * n + int (case u_decimal U c of None \<Rightarrow> 0 | Some v \<Rightarrow> v)) 0 ds"

text \<open>\<open>(\d+)\<close>, greedy with backtracking, followed by the unit; \<open>acc\<close> holds the digits
  taken so far.\<close>

fun digits_then :: "unicode \<Rightarrow> ustr \<Rightarrow> ustr \<Rightarrow> int option" where
  "digits_then U acc [] = None"
| "digits_then U acc (c # cs) =
     (case (if u_decimal U c \<noteq> None then digits_then U (acc @ [c]) cs else None) of
        Some r \<Rightarrow> Some r
      | None \<Rightarrow>
          if acc = [] then None
          else map_option (\<lambda>f. int_of_digits U acc * f) (unit_here (c # cs)))"

fun window_search :: "unicode \<Rightarrow> ustr \<Rightarrow> int option" where
  "window_search U [] = None"
| "window_search U (c # cs) =
     (case (if is_prefix [52572, 44540] (c # cs) then digits_then U [] (drop 2 (c # cs))
            else None) of
        Some r \<Rightarrow> Some r
      | None \<Rightarrow> window_search U cs)"

definition parse_window_minutes_ko :: "unicode \<Rightarrow> ustr \<Rightarrow> int option" where
  "parse_window_minutes_ko U question = window_search U (filter (\<lambda>c. c \<noteq> 32) question)"

text \<open>The operator \<open>in\<close> on strings.\<close>

fun is_infix :: "ustr \<Rightarrow> ustr \<Rightarrow> bool" where
  "is_infix n [] = (n = [])"
| "is_infix n (c # cs) = (is_prefix n (c # cs) \<or> is_infix n cs)"

definition choose_status_from_question :: "unicode \<Rightarrow> ustr \<Rightarrow> ustr" where
  "choose_status_from_question U question =
     (let q = u_lower U question in
      if is_infix (asc ''warn'') q \<or> is_infix (asc ''warning'') q
         \<or> is_infix [44221, 44256] question then asc ''warn''
      else if is_infix (asc ''info'') q \<or> is_infix [51221, 48372] question then asc ''info''
      else if is_infix (asc ''debug'') q \<or> is_infix [46356, 48260, 44536] question
        then asc ''debug''
      else asc ''error'')"

text \<open>The four hints that \<open>run_agent\<close> derives from the question before its loop.\<close>

record hints =
  hinted_cluster :: "ustr option"
  hinted_namespace :: "ustr option"
  hinted_window :: "int option"
  hinted_status :: ustr

definition question_hints :: "unicode \<Rightarrow> ustr \<Rightarrow> hints" where
  "question_hints U question =
     \<lparr> hinted_cluster = extract_cluster_from_question U question,
       hinted_namespace = extract_namespace_from_question U question,
       hinted_window = parse_window_minutes_ko U question,
       hinted_status = choose_status_from_question U question \<rparr>"

section \<open>Configuration and the Python runtime\<close>

text \<open>
  The module constants read from the environment when the module is loaded, and the two
  system prompts \<open>LANG_SPEC\<close> and \<open>TOOL_SPEC\<close>, whose text no operation inspects.
\<close>

record config =
  MAX_TOOL_CALLS :: int
  WINDOW_MIN :: int
  WINDOW_MAX :: int
  LIMIT_MIN :: int
  LIMIT_MAX :: int
  MAX_LANG_RETRY :: int
  LANG_SPEC :: ustr
  TOOL_SPEC :: ustr

definition default_config :: "ustr \<Rightarrow> ustr \<Rightarrow> config" where
  "default_config lang tool =
     \<lparr> MAX_TOOL_CALLS = 2, WINDOW_MIN = 5, WINDOW_MAX = 20160, LIMIT_MIN = 1,
       LIMIT_MAX = 20, MAX_LANG_RETRY = 3, LANG_SPEC = lang, TOOL_SPEC = tool \<rparr>"

text \<open>
  The functions of the Python library that the program calls on values it does not
  control.  They are parameters: \<open>rt_loads\<close> is \<open>json.loads\<close> (\<open>None\<close> when it raises),
  \<open>rt_dumps\<close> is \<open>json.dumps(x, ensure_ascii=False)\<close>, \<open>rt_dumps_indent\<close> the same with
  \<open>indent=2\<close>, \<open>rt_str\<close> is \<open>str(x)\<close> (also the formatting of an f-string field),
  \<open>rt_int_of_str\<close> and \<open>rt_float_of_str\<close> are \<open>int\<close> and \<open>float\<close> on a string,
  \<open>rt_float_of_int\<close> is \<open>float\<close> on an integer, \<open>rt_unicode\<close> the Unicode tables.
\<close>

record runtime =
  rt_loads :: "ustr \<Rightarrow> json option"
  rt_dumps :: "json \<Rightarrow> ustr"
  rt_dumps_indent :: "json \<Rightarrow> ustr"
  rt_str :: "json \<Rightarrow> ustr"
  rt_int_of_str :: "ustr \<Rightarrow> py_exc + int"
  rt_float_of_str :: "ustr \<Rightarrow> py_exc + pyfloat"
  rt_float_of_int :: "int \<Rightarrow> py_exc + pyfloat"
  rt_unicode :: unicode

text \<open>\<open>int(x)\<close> and \<open>float(x)\<close> on a value.\<close>

definition py_int :: "runtime \<Rightarrow> json \<Rightarrow> py_exc + int" where
  "py_int rt x =
     (case x of
        JInt n \<Rightarrow> Inr n
      | JBool b \<Rightarrow> Inr (if b then 1 else 0)
      | JFloat f \<Rightarrow>
          (case f of
             Fin r \<Rightarrow> Inr (if r < 0 then - \<lfloor>- r\<rfloor> else \<lfloor>r\<rfloor>)
           | NaN \<Rightarrow> Inl (ValueError (asc ''cannot convert float NaN to integer''))
           | _ \<Rightarrow> Inl OverflowError)
      | JStr s \<Rightarrow> rt_int_of_str rt s
      | _ \<Rightarrow> Inl TypeError)"

definition py_float :: "runtime \<Rightarrow> json \<Rightarrow> py_exc + pyfloat" where
  "py_float rt x =
     (case x of
        JFloat f \<Rightarrow> Inr f
      | JInt n \<Rightarrow> rt_float_of_int rt n
      | JBool b \<Rightarrow> Inr (Fin (if b then 1 else 0))
      | JStr s \<Rightarrow> rt_float_of_str rt s
      | _ \<Rightarrow> Inl TypeError)"

section \<open>Clamping\<close>

definition clamp_int :: "int \<Rightarrow> int \<Rightarrow> int \<Rightarrow> int" where
  "clamp_int v lo hi = max lo (min hi v)"

text \<open>
  The order of floats: every comparison with not-a-number is false.  \<open>min(a, b)\<close> and
  \<open>max(a, b)\<close> of Python keep the first argument unless the second is strictly smaller
  (larger).
\<close>

fun flt_less :: "pyfloat \<Rightarrow> pyfloat \<Rightarrow> bool" where
  "flt_less NaN _ = False"
| "flt_less _ NaN = False"
| "flt_less (Fin a) (Fin b) = (a < b)"
| "flt_less NegInf NegInf = False"
| "flt_less NegInf _ = True"
| "flt_less _ NegInf = False"
| "flt_less PosInf _ = False"
| "flt_less _ PosInf = True"

definition py_min :: "pyfloat \<Rightarrow> pyfloat \<Rightarrow> pyfloat" where
  "py_min a b = (if flt_less b a then b else a)"

definition py_max :: "pyfloat \<Rightarrow> pyfloat \<Rightarrow> pyfloat" where
  "py_max a b = (if flt_less a b then b else a)"

definition clamp_float :: "pyfloat \<Rightarrow> pyfloat \<Rightarrow> pyfloat \<Rightarrow> pyfloat" where
  "clamp_float v lo hi = py_max lo (py_min hi v)"

section \<open>Tool call validation and normalisation\<close>

definition CURRENT :: ustr where
  "CURRENT = asc ''current_error_services''"

definition INCREASING :: ustr where
  "INCREASING = asc ''increasing_error_services''"

definition CLUSTER_ERROR :: ustr where
  "CLUSTER_ERROR = asc ''cluster must be specified explicitly''"

text \<open>
  The source mutates the dict \<open>args\<close> in place and raises in the middle, so the caller's
  \<open>except\<close> clause sees the call as far as it was normalised.  Each stage below returns
  the arguments as they are after it, or the exception together with the arguments as
  they were when it was raised.
\<close>

definition norm_cluster :: "jdict \<Rightarrow> (py_exc \<times> jdict) + jdict" where
  "norm_cluster args =
     (case dict_get args (asc ''cluster'') of
        JStr cluster \<Rightarrow>
          if strip cluster = [] then Inl (ValueError CLUSTER_ERROR, args)
          else Inr (dict_set args (asc ''cluster'') (JStr (strip cluster)))
      | _ \<Rightarrow> Inl (ValueError CLUSTER_ERROR, args))"

definition norm_status :: "jdict \<Rightarrow> (py_exc \<times> jdict) + jdict" where
  "norm_status args =
     (case dict_get_or args (asc ''status'') (JStr (asc ''error'')) of
        JNull \<Rightarrow> Inr (dict_set args (asc ''status'') (JStr (asc ''error'')))
      | JStr status \<Rightarrow>
          Inr (dict_set args (asc ''status'')
                 (JStr (if strip status = [] then asc ''error'' else strip status)))
      | _ \<Rightarrow> Inl (ValueError (asc ''status must be a string''), args))"

definition norm_namespace :: "jdict \<Rightarrow> (py_exc \<times> jdict) + jdict" where
  "norm_namespace args =
     (case dict_get args (asc ''namespace'') of
        JNull \<Rightarrow> Inr (dict_set args (asc ''namespace'') JNull)
      | JStr namespace \<Rightarrow>
          Inr (dict_set args (asc ''namespace'')
                 (if strip namespace = [] then JNull else JStr (strip namespace)))
      | _ \<Rightarrow> Inl (ValueError (asc ''namespace must be a string or null''), args))"

definition norm_window_limit :: "config \<Rightarrow> runtime \<Rightarrow> jdict \<Rightarrow> (py_exc \<times> jdict) + jdict" where
  "norm_window_limit cfg rt args =
     (case py_int rt (dict_get_or args (asc ''window_minutes'') (JInt 15)) of
        Inl e \<Rightarrow> Inl (e, args)
      | Inr window \<Rightarrow>
          (case py_int rt (dict_get_or args (asc ''limit'') (JInt 10)) of
             Inl e \<Rightarrow> Inl (e, args)
           | Inr limit \<Rightarrow>
               Inr (dict_set
                      (dict_set args (asc ''window_minutes'')
                         (JInt (clamp_int window (WINDOW_MIN cfg) (WINDOW_MAX cfg))))
                      (asc ''limit'') (JInt (clamp_int limit (LIMIT_MIN cfg) (LIMIT_MAX cfg))))))"

definition norm_increasing :: "runtime \<Rightarrow> jdict \<Rightarrow> (py_exc \<times> jdict) + jdict" where
  "norm_increasing rt args =
     (case py_int rt (dict_get_or args (asc ''min_delta'') (JInt 10)) of
        Inl e \<Rightarrow> Inl (e, args)
      | Inr d \<Rightarrow>
          (let args1 = dict_set args (asc ''min_delta'') (JInt (clamp_int d 1 999999)) in
           case py_float rt (dict_get_or args1 (asc ''min_ratio'') (JFloat (Fin 2))) of
             Inl e \<Rightarrow> Inl (e, args1)
           | Inr r \<Rightarrow>
               Inr (dict_set args1 (asc ''min_ratio'')
                      (JFloat (clamp_float r (Fin 1) (Fin 100))))))"

definition then_norm ::
  "(py_exc \<times> jdict) + jdict \<Rightarrow> (jdict \<Rightarrow> (py_exc \<times> jdict) + jdict) \<Rightarrow> (py_exc \<times> jdict) + jdict"
where
  "then_norm r f = (case r of Inl e \<Rightarrow> Inl e | Inr args \<Rightarrow> f args)"

definition normalize_args :: "config \<Rightarrow> runtime \<Rightarrow> json \<Rightarrow> jdict \<Rightarrow> (py_exc \<times> jdict) + jdict" where
  "normalize_args cfg rt tool args =
     then_norm (then_norm (then_norm (then_norm (norm_cluster args) norm_status)
       norm_namespace) (norm_window_limit cfg rt))
       (\<lambda>a. if tool = JStr INCREASING then norm_increasing rt a else Inr a)"

text \<open>
  \<open>validate_and_normalize_call\<close> on a call that is a dict, as its caller passes it.  The
  result is the normalised call, or the exception with the call as the source has left it.  When \<open>call["args"]\<close> is falsy the source
  normalises a fresh dict, which the call does not see before the final assignment;
  otherwise \<open>args\<close> is the dict inside the call.
\<close>

definition validate_and_normalize_call ::
  "config \<Rightarrow> runtime \<Rightarrow> jdict \<Rightarrow> (py_exc \<times> jdict) + jdict"
where
  "validate_and_normalize_call cfg rt call =
     (if dict_get call (asc ''action'') \<noteq> JStr (asc ''tool_call'')
      then Inl (ValueError (asc ''Not a tool_call action''), call)
      else
        let tool = dict_get call (asc ''tool'');
            a0 = dict_get call (asc ''args'')
        in
        if tool \<noteq> JStr CURRENT \<and> tool \<noteq> JStr INCREASING
        then Inl (ValueError (asc ''Tool not allowed: '' @ rt_str rt tool), call)
        else
          (case (if truthy a0 then a0 else JDict []) of
             JDict args \<Rightarrow>
               (case normalize_args cfg rt tool args of
                  Inl (e, args') \<Rightarrow>
                    Inl (e, if truthy a0 then dict_set call (asc ''args'') (JDict args')
                            else call)
                | Inr args' \<Rightarrow> Inr (dict_set call (asc ''args'') (JDict args')))
           | _ \<Rightarrow> Inl (AttributeError, call)))"

section \<open>Tool runner and result compaction\<close>

text \<open>
  The outside world of one run: the text-generation backend and the HTTP service behind
  the two tools.  \<open>llm_chat\<close> maps the conversation to the reply or to the exception of
  the request.  \<open>http_post\<close> answers a request (path and JSON payload) with the decoded
  result or the exception of the request; it is given the requests made before, so that
  the same request may be answered differently each time.
\<close>

datatype role = System | User | Assistant

type_synonym message = "role \<times> ustr"

record world =
  llm_chat :: "message list \<Rightarrow> py_exc + ustr"
  http_post :: "(ustr \<times> json) list \<Rightarrow> ustr \<Rightarrow> json \<Rightarrow> py_exc + json"

text \<open>
  Binding \<open>**args\<close> to the parameters of a tool function: a key that is no parameter, or
  a missing \<open>cluster\<close>, is a \<open>TypeError\<close>; a missing optional parameter takes its default.
  The payload lists the parameters in the order of the source.
\<close>

definition bind_kwargs :: "(ustr \<times> json option) list \<Rightarrow> jdict \<Rightarrow> py_exc + jdict" where
  "bind_kwargs params args =
     (if list_all (\<lambda>kv. fst kv \<in> set (map fst params)) args
         \<and> list_all (\<lambda>p. snd p \<noteq> None \<or> map_of args (fst p) \<noteq> None) params
      then Inr (map (\<lambda>p. (fst p, case map_of args (fst p) of
                                    Some v \<Rightarrow> v
                                  | None \<Rightarrow> (case snd p of Some d \<Rightarrow> d | None \<Rightarrow> JNull)))
                  params)
      else Inl TypeError)"

definition current_params :: "(ustr \<times> json option) list" where
  "current_params =
     [(asc ''cluster'', None), (asc ''window_minutes'', Some (JInt 15)),
      (asc ''limit'', Some (JInt 10)), (asc ''status'', Some (JStr (asc ''error''))),
      (asc ''namespace'', Some JNull)]"

definition increasing_params :: "(ustr \<times> json option) list" where
  "increasing_params =
     [(asc ''cluster'', None), (asc ''window_minutes'', Some (JInt 15)),
      (asc ''limit'', Some (JInt 10)), (asc ''min_delta'', Some (JInt 10)),
      (asc ''min_ratio'', Some (JFloat (Fin 2))), (asc ''status'', Some (JStr (asc ''error''))),
      (asc ''namespace'', Some JNull)]"

text \<open>
  \<open>run_tool\<close> with the two functions of \<open>tools_client\<close>.  The result carries the list of
  requests made so far, which grows by the request whenever one is sent.
\<close>

definition run_tool ::
  "world \<Rightarrow> (ustr \<times> json) list \<Rightarrow> json \<Rightarrow> json \<Rightarrow> (py_exc + json) \<times> (ustr \<times> json) list"
where
  "run_tool w sent tool args =
     (if tool = JStr CURRENT \<or> tool = JStr INCREASING then
        (case args of
           JDict a \<Rightarrow>
             (case bind_kwargs (if tool = JStr CURRENT then current_params
                                else increasing_params) a of
                Inl e \<Rightarrow> (Inl e, sent)
              | Inr payload \<Rightarrow>
                  (let path = (if tool = JStr CURRENT then asc ''/tools/current-error-services''
                               else asc ''/tools/increasing-error-services'')
                   in (http_post w sent path (JDict payload), sent @ [(path, JDict payload)])))
         | _ \<Rightarrow> (Inl TypeError, sent))
      else (Inl (ValueError (asc ''Unknown tool'')), sent))"

text \<open>\<open>x.get(k)\<close> on a value that need not be a dict.\<close>

definition py_get :: "json \<Rightarrow> ustr \<Rightarrow> py_exc + json" where
  "py_get x k = (case x of JDict d \<Rightarrow> Inr (dict_get d k) | _ \<Rightarrow> Inl AttributeError)"

text \<open>One row of \<open>services_top5\<close>: the body of the loop of \<open>compact_tool_result\<close>.\<close>

definition compact_row :: "runtime \<Rightarrow> json \<Rightarrow> py_exc + json" where
  "compact_row rt s =
     (case s of
        JDict d \<Rightarrow>
          (let row = map (\<lambda>k. (k, dict_get d k))
                       [asc ''service'', asc ''count'', asc ''previous'', asc ''current'',
                        asc ''delta'', asc ''ratio''];
               samples = dict_get d (asc ''samples'')
           in
           if \<not> truthy samples then Inr (JDict row)
           else
             (case samples of
                JList xs \<Rightarrow>
                  (case xs of
                     [] \<Rightarrow> Inr (JDict row)
                   | x # _ \<Rightarrow>
                       Inr (JDict (dict_set row (asc ''sample'') (JStr (take 220 (rt_str rt x))))))
              | JStr cs \<Rightarrow>
                  (case cs of
                     [] \<Rightarrow> Inr (JDict row)
                   | ch # _ \<Rightarrow> Inr (JDict (dict_set row (asc ''sample'') (JStr (take 220 [ch])))))
              | JDict _ \<Rightarrow> Inl KeyError
              | _ \<Rightarrow> Inl TypeError))
      | _ \<Rightarrow> Inl AttributeError)"

fun compact_rows :: "runtime \<Rightarrow> json list \<Rightarrow> py_exc + json list" where
  "compact_rows rt [] = Inr []"
| "compact_rows rt (s # ss) =
     (case compact_row rt s of
        Inl e \<Rightarrow> Inl e
      | Inr row \<Rightarrow>
          (case compact_rows rt ss of
             Inl e \<Rightarrow> Inl e
           | Inr out \<Rightarrow> Inr (row # out)))"

text \<open>
  \<open>compact_tool_result\<close>.  A truthy \<open>services\<close> that is not a list cannot be sliced and
  iterated as the source expects: a string yields one-character strings, on which
  \<open>s.get\<close> is an \<open>AttributeError\<close>; a dict cannot be indexed by a slice; a number or
  \<open>True\<close> cannot be indexed at all.
\<close>

definition compact_tool_result :: "runtime \<Rightarrow> json \<Rightarrow> json \<Rightarrow> py_exc + json" where
  "compact_tool_result rt tool result =
     (case result of
        JDict r \<Rightarrow>
          (let sv = dict_get r (asc ''services'');
               services = (if truthy sv then sv else JList [])
           in
           case services of
             JList xs \<Rightarrow>
               (case compact_rows rt (take 5 xs) of
                  Inl e \<Rightarrow> Inl e
                | Inr out \<Rightarrow>
                    Inr (JDict
                      [(asc ''tool'', tool),
                       (asc ''summary'', dict_get r (asc ''summary'')),
                       (asc ''window'',
                          if truthy (dict_get r (asc ''window'')) then dict_get r (asc ''window'')
                          else dict_get r (asc ''comparison'')),
                       (asc ''services_total'', JInt (int (length xs))),
                       (asc ''services_top5'', JList out)]))
           | JStr _ \<Rightarrow> Inl AttributeError
           | _ \<Rightarrow> Inl TypeError)
      | _ \<Rightarrow> Inl AttributeError)"

section \<open>Orchestration loop\<close>

text \<open>The entries of the trace, one constructor for each value of \<open>type\<close>.\<close>

datatype trace_entry =
    Llm_raw_rejected_language ustr int
  | Llm_raw ustr
  | Final_rejected_language json int
  | Final_sanitized json
  | Final json
  | Tool_call_rejected ustr json
  | Tool_call_invalid ustr json
  | Tool_call json
  | Tool_result json
  | Unknown_action json

text \<open>
  The variables of \<open>run_agent\<close>.  \<open>invoked\<close> is not a variable of the source: it lists
  the requests sent to the tool service so far, the effect of \<open>run_tool\<close> on the world.
\<close>

record loop_state =
  messages :: "message list"
  tool_calls :: int
  lang_retry :: int
  trace :: "trace_entry list"
  invoked :: "(ustr \<times> json) list"

text \<open>How one pass through the body of \<open>while True\<close> ends: \<open>continue\<close>, \<open>return\<close>, or an
  exception that leaves \<open>run_agent\<close>.\<close>

datatype step_result =
    Continue loop_state
  | Return json loop_state
  | Raise py_exc loop_state

definition RAW_LANGUAGE_PROMPT :: ustr where
  "RAW_LANGUAGE_PROMPT =
     [48169, 44552] @ asc '' '' @ [52636, 47141, 50640] @ asc '' '' @ [51473, 44397, 50612]
     @ asc ''/'' @ [54620, 51088] @ asc '' '' @ [47928, 51088, 44032] @ asc '' ''
     @ [54252, 54632, 46104, 50632, 49845, 45768, 45796] @ asc ''.'' @ [10] @ asc ''- ''
     @ [51473, 44397, 50612] @ asc ''/'' @ [54620, 51088] @ asc ''/'' @ [50689, 50612, 47484]
     @ asc '' '' @ [51208, 45824] @ asc '' '' @ [49324, 50857, 54616, 51648] @ asc '' ''
     @ [47560, 49901, 49884, 50724] @ asc ''.'' @ [10] @ asc ''- ''
     @ [54620, 44397, 50612, 47196, 47564] @ asc '', '' @ [44536, 47532, 44256]
     @ asc '' JSON'' @ [47564] @ asc '' '' @ [52636, 47141, 54616, 49901, 49884, 50724]
     @ asc ''.'' @ [10] @ asc ''- '' @ [48152, 46300, 49884] @ asc '' JSON '' @ [44061, 52404]
     @ asc '' 1'' @ [44060, 47564] @ asc '' '' @ [52636, 47141, 54616, 49901, 49884, 50724]
     @ asc ''.''"

definition FINAL_LANGUAGE_PROMPT :: ustr where
  "FINAL_LANGUAGE_PROMPT =
     [48169, 44552] @ asc '' '' @ [52636, 47141, 50640] @ asc '' '' @ [51473, 44397, 50612]
     @ asc ''/'' @ [54620, 51088] @ asc '' '' @ [47928, 51088, 44032] @ asc '' ''
     @ [54252, 54632, 46104, 50632, 49845, 45768, 45796] @ asc ''.'' @ [10] @ asc ''- ''
     @ [51473, 44397, 50612] @ asc ''/'' @ [54620, 51088] @ asc ''/'' @ [50689, 50612, 47484]
     @ asc '' '' @ [51208, 45824] @ asc '' '' @ [49324, 50857, 54616, 51648] @ asc '' ''
     @ [47560, 49901, 49884, 50724] @ asc ''.'' @ [10] @ asc ''- ''
     @ [54620, 44397, 50612, 47196, 47564] @ asc '' '' @ [45796, 49884] @ asc '' ''
     @ [51089, 49457, 54616, 49901, 49884, 50724] @ asc ''.'' @ [10] @ asc ''- ''
     @ [48152, 46300, 49884] @ asc '' action=final JSON 1'' @ [44060, 47564] @ asc '' ''
     @ [52636, 47141, 54616, 49901, 49884, 50724] @ asc ''.'' @ [10] @ asc ''- ''
     @ [53945, 55176] @ asc '' findings/next_actions'' @ [50640] @ asc '' ''
     @ [48708, 54620, 44397, 50612] @ asc '' '' @ [47928, 51088, 44032] @ asc '' ''
     @ [46308, 50612, 44032, 47732] @ asc '' '' @ [50504] @ asc '' '' @ [46121, 45768, 45796]
     @ asc ''.''"

definition LIMIT_PROMPT :: ustr where
  "LIMIT_PROMPT =
     asc ''Tool call limit reached. Output action=final JSON now (Korean-only, JSON-only).''"

definition INVALID_PROMPT_TAIL :: ustr where
  "INVALID_PROMPT_TAIL =
     asc ''. '' @ [49324, 50857, 51088, 50640, 44172] @ asc '' '' @ [54596, 50836, 54620]
     @ asc '' '' @ [52628, 44032] @ asc '' '' @ [51221, 48372, 47484] @ asc '' ''
     @ [54620, 44397, 50612, 47196] @ asc '' '' @ [51656, 47928, 54616, 44256]
     @ asc '' action=final JSON'' @ [51004, 47196] @ asc '' ''
     @ [51333, 47308, 54616, 49901, 49884, 50724] @ asc ''.''"

definition NEXT_STEP_PROMPT :: ustr where
  "NEXT_STEP_PROMPT =
     [10, 10, 45796, 51020] @ asc '' '' @ [45800, 44228] @ asc '' '' @ [44208, 51221]
     @ asc '': '' @ [52628, 44032] @ asc '' '' @ [46300, 47540, 45796, 50868, 51060]
     @ asc '' '' @ [46020, 50880, 51060] @ asc '' '' @ [46104, 47732] @ asc '' '' @ [46608]
     @ asc '' '' @ [45796, 47480] @ asc '' tool_call'' @ [51012] @ asc '' ''
     @ [54616, 49901, 49884, 50724] @ asc ''. '' @ [50500, 45768, 47732]
     @ asc '' action=final'' @ [47196] @ asc '' '' @ [54620, 44397, 50612] @ asc '' JSON''
     @ [47564] @ asc '' '' @ [52636, 47141, 54616, 49901, 49884, 50724] @ asc ''.''"

text \<open>The fixed diagnostic envelope for a reply without a JSON object.\<close>

definition no_json_final :: json where
  "no_json_final =
     JDict
       [(asc ''action'', JStr (asc ''final'')),
        (asc ''title'', JStr (asc ''LLM '' @ [52636, 47141] @ asc '' '' @ [50724, 47448])),
        (asc ''summary'',
           JStr (asc ''LLM'' @ [51060] @ asc '' '' @ [50976, 54952, 54620] @ asc '' JSON''
             @ [51012] @ asc '' '' @ [48152, 54872, 54616, 51648] @ asc '' ''
             @ [50506, 50520, 49845, 45768, 45796] @ asc ''. '' @ [47784, 45944] @ asc ''/''
             @ [54532, 47212, 54532, 53944] @ asc '' '' @ [44508, 52825, 51012] @ asc '' ''
             @ [54869, 51064, 54616, 49901, 49884, 50724] @ asc ''.'')),
        (asc ''findings'', JList []),
        (asc ''next_actions'',
           JList
             [JStr (asc ''OLLAMA_MODEL'' @ [44284] @ asc '' TOOL_SPEC '' @ [44508, 52825, 51012]
                @ asc '' '' @ [54869, 51064, 54633, 45768, 45796] @ asc ''.''),
              JStr (asc ''LLM'' @ [51060] @ asc '' JSON'' @ [47564] @ asc '' ''
                @ [52636, 47141, 54616, 46020, 47197] @ asc '' system prompt'' @ [47484]
                @ asc '' '' @ [44053, 54868, 54633, 45768, 45796] @ asc ''.''),
              JStr ([46041, 51068] @ asc '' '' @ [51656, 47928, 51004, 47196] @ asc '' ''
                @ [51116, 49884, 46020, 54644] @ asc '' '' @ [52636, 47141] @ asc '' ''
                @ [54805, 49885, 51012] @ asc '' '' @ [54869, 51064, 54633, 45768, 45796]
                @ asc ''.'')])]"

text \<open>The diagnostic envelope for an unrecognised \<open>action\<close>; the summary quotes the action.\<close>

definition unknown_action_final :: "runtime \<Rightarrow> json \<Rightarrow> json \<Rightarrow> json" where
  "unknown_action_final rt action obj =
     JDict
       [(asc ''action'', JStr (asc ''final'')),
        (asc ''title'',
           JStr ([50508] @ asc '' '' @ [49688] @ asc '' '' @ [50630, 45716] @ asc '' action'')),
        (asc ''summary'',
           JStr (asc ''LLM'' @ [51060] @ asc '' '' @ [50508] @ asc '' '' @ [49688] @ asc '' ''
             @ [50630, 45716] @ asc '' action'' @ [51012] @ asc '' ''
             @ [48152, 54872, 54664, 49845, 45768, 45796] @ asc '': '' @ rt_str rt action)),
        (asc ''findings'', JList [obj]),
        (asc ''next_actions'',
           JList
             [JStr (asc ''TOOL_SPEC'' @ [51032] @ asc '' action '' @ [51221, 51032, 47484]
                @ asc '' '' @ [51216, 44160, 54633, 45768, 45796] @ asc ''.''),
              JStr ([47784, 45944, 51060] @ asc '' JSON '' @ [44508, 52825, 51012] @ asc '' ''
                @ [51456, 49688, 54616, 45716, 51648] @ asc '' ''
                @ [54869, 51064, 54633, 45768, 45796] @ asc ''.''),
              JStr ([46041, 51068] @ asc '' '' @ [51656, 47928, 51004, 47196] @ asc '' ''
                @ [51116, 49884, 46020, 54616, 50668] @ asc '' '' @ [52636, 47141] @ asc '' ''
                @ [54056, 53556, 51012] @ asc '' '' @ [54869, 51064, 54633, 45768, 45796]
                @ asc ''.'')])]"

definition append_exchange :: "loop_state \<Rightarrow> ustr \<Rightarrow> ustr \<Rightarrow> loop_state" where
  "append_exchange st assistant user =
     st\<lparr>messages := messages st @ [(Assistant, assistant), (User, user)]\<rparr>"

definition append_trace :: "loop_state \<Rightarrow> trace_entry list \<Rightarrow> loop_state" where
  "append_trace st es = st\<lparr>trace := trace st @ es\<rparr>"

text \<open>
  The inner loop on the raw reply: while the text has a Han character and fewer than two
  retries were made, record it, re-prompt and ask again.
\<close>

function raw_retry_loop ::
  "world \<Rightarrow> loop_state \<Rightarrow> ustr \<Rightarrow> nat \<Rightarrow> (py_exc \<times> loop_state) + (ustr \<times> loop_state)"
where
  "raw_retry_loop w st text raw_retry =
     (if contains_cjk text \<and> raw_retry < 2 then
        (let st' = append_exchange
                     (append_trace st [Llm_raw_rejected_language text (int raw_retry + 1)])
                     text RAW_LANGUAGE_PROMPT
         in case llm_chat w (messages st') of
              Inl e \<Rightarrow> Inl (e, st')
            | Inr text' \<Rightarrow> raw_retry_loop w st' text' (raw_retry + 1))
      else Inr (text, st))"
  by pat_completeness auto
termination
  by (relation "measure (\<lambda>(w, st, text, raw_retry). 2 - raw_retry)") auto

definition await_model :: "world \<Rightarrow> loop_state \<Rightarrow> (py_exc \<times> loop_state) + (ustr \<times> loop_state)" where
  "await_model w st =
     (case llm_chat w (messages st) of
        Inl e \<Rightarrow> Inl (e, st)
      | Inr text \<Rightarrow> raw_retry_loop w st text 0)"

text \<open>
  The backfill of the hints into \<open>args\<close>.  \<open>fill_hints\<close> is the four conditional
  assignments on a dict.
\<close>

definition cluster_missing :: "jdict \<Rightarrow> bool" where
  "cluster_missing args =
     (case dict_get args (asc ''cluster'') of JStr s \<Rightarrow> strip s = [] | _ \<Rightarrow> True)"

definition fill_hints :: "hints \<Rightarrow> jdict \<Rightarrow> jdict" where
  "fill_hints h args =
     (let a1 = (case hinted_cluster h of
                  Some c \<Rightarrow> if c \<noteq> [] \<and> cluster_missing args
                            then dict_set args (asc ''cluster'') (JStr c) else args
                | None \<Rightarrow> args);
          a2 = (case hinted_namespace h of
                  Some n \<Rightarrow> if n \<noteq> [] \<and> dict_get a1 (asc ''namespace'')
                                 \<in> {JNull, JStr [], JStr (asc ''null'')}
                            then dict_set a1 (asc ''namespace'') (JStr n) else a1
                | None \<Rightarrow> a1);
          a3 = (case hinted_window h of
                  Some m \<Rightarrow> if m \<noteq> 0 then dict_set a2 (asc ''window_minutes'') (JInt m) else a2
                | None \<Rightarrow> a2)
      in if hinted_status h \<noteq> [] \<and> dict_get a3 (asc ''status'') = JNull
         then dict_set a3 (asc ''status'') (JStr (hinted_status h)) else a3)"

text \<open>
  The exception of the first statement that touches a truthy \<open>args\<close> which is no dict:
  \<open>.get\<close> is an \<open>AttributeError\<close>, the assignment of the window a \<open>TypeError\<close>; with no
  hint at all no statement touches it.
\<close>

definition non_dict_args_error :: "hints \<Rightarrow> py_exc option" where
  "non_dict_args_error h =
     (if hinted_cluster h \<noteq> None \<and> hinted_cluster h \<noteq> Some [] then Some AttributeError
      else if hinted_namespace h \<noteq> None \<and> hinted_namespace h \<noteq> Some [] then Some AttributeError
      else if hinted_window h \<noteq> None \<and> hinted_window h \<noteq> Some 0 then Some TypeError
      else if hinted_status h \<noteq> [] then Some AttributeError
      else None)"

definition backfill_hints :: "hints \<Rightarrow> jdict \<Rightarrow> py_exc + jdict" where
  "backfill_hints h obj =
     (let obj1 = (if map_of obj (asc ''args'') = None then obj @ [(asc ''args'', JDict [])]
                  else obj);
          a0 = dict_get obj1 (asc ''args'')
      in
      if \<not> truthy a0 then Inr (dict_set obj1 (asc ''args'') (JDict (fill_hints h [])))
      else
        (case a0 of
           JDict args \<Rightarrow> Inr (dict_set obj1 (asc ''args'') (JDict (fill_hints h args)))
         | _ \<Rightarrow> (case non_dict_args_error h of Some e \<Rightarrow> Inl e | None \<Rightarrow> Inr obj1)))"

text \<open>The branch \<open>action == "final"\<close>.\<close>

definition handle_final :: "config \<Rightarrow> runtime \<Rightarrow> loop_state \<Rightarrow> jdict \<Rightarrow> step_result" where
  "handle_final cfg rt st obj =
     (let dump = rt_dumps rt (JDict obj) in
      if contains_cjk dump then
        (let st1 = st\<lparr>lang_retry := lang_retry st + 1\<rparr>;
             st2 = append_trace st1 [Final_rejected_language (JDict obj) (lang_retry st1)]
         in
         if MAX_LANG_RETRY cfg \<le> lang_retry st2 then
           (let sanitized = sanitize_korean_only (JDict obj) in
            Return sanitized (append_trace st2 [Final_sanitized sanitized]))
         else Continue (append_exchange st2 dump FINAL_LANGUAGE_PROMPT))
      else Return (JDict obj) (append_trace st [Final (JDict obj)]))"

text \<open>
  The end of the branch \<open>action == "tool_call"\<close>, after validation: the counter, the
  tool, the compaction, the trace and the conversation.
\<close>

definition execute_tool_call :: "runtime \<Rightarrow> world \<Rightarrow> loop_state \<Rightarrow> jdict \<Rightarrow> step_result" where
  "execute_tool_call rt w st call =
     (let tool = dict_get call (asc ''tool'');
          args = dict_get call (asc ''args'');
          st1 = st\<lparr>tool_calls := tool_calls st + 1\<rparr>
      in
      case run_tool w (invoked st1) tool args of
        (Inl e, sent) \<Rightarrow> Raise e (st1\<lparr>invoked := sent\<rparr>)
      | (Inr result, sent) \<Rightarrow>
          (case compact_tool_result rt tool result of
             Inl e \<Rightarrow> Raise e (st1\<lparr>invoked := sent\<rparr>)
           | Inr compacted \<Rightarrow>
               Continue
                 (append_exchange
                    (append_trace (st1\<lparr>invoked := sent\<rparr>)
                       [Tool_call (JDict call), Tool_result compacted])
                    (rt_dumps rt (JDict call))
                    (asc ''Tool result:'' @ [10] @ rt_dumps_indent rt compacted
                       @ NEXT_STEP_PROMPT))))"

text \<open>The branch \<open>action == "tool_call"\<close>.\<close>

definition handle_tool_call ::
  "config \<Rightarrow> runtime \<Rightarrow> world \<Rightarrow> hints \<Rightarrow> loop_state \<Rightarrow> jdict \<Rightarrow> step_result"
where
  "handle_tool_call cfg rt w h st obj =
     (if MAX_TOOL_CALLS cfg \<le> tool_calls st then
        Continue
          (append_trace (append_exchange st (rt_dumps rt (JDict obj)) LIMIT_PROMPT)
             [Tool_call_rejected (asc ''limit_reached'') (JDict obj)])
      else
        (case backfill_hints h obj of
           Inl e \<Rightarrow> Raise e st
         | Inr obj1 \<Rightarrow>
             (case validate_and_normalize_call cfg rt obj1 of
                Inl (e, obj2) \<Rightarrow>
                  (case e of
                     ValueError msg \<Rightarrow>
                       Continue
                         (append_trace
                            (append_exchange st (rt_dumps rt (JDict obj2))
                               (asc ''Tool call is invalid: '' @ msg @ INVALID_PROMPT_TAIL))
                            [Tool_call_invalid msg (JDict obj2)])
                   | _ \<Rightarrow> Raise e st)
              | Inr call \<Rightarrow> execute_tool_call rt w st call)))"

text \<open>The body of the loop after the reply is in: extraction and the branch on the action.\<close>

definition dispatch ::
  "config \<Rightarrow> runtime \<Rightarrow> world \<Rightarrow> hints \<Rightarrow> loop_state \<Rightarrow> ustr \<Rightarrow> step_result"
where
  "dispatch cfg rt w h st text =
     (case extract_first_json_object (rt_loads rt) text of
        None \<Rightarrow> Return no_json_final (append_trace st [Llm_raw text])
      | Some v \<Rightarrow>
          if \<not> truthy v then Return no_json_final (append_trace st [Llm_raw text])
          else
            (case v of
               JDict obj \<Rightarrow>
                 (let action = dict_get obj (asc ''action'') in
                  if action = JStr (asc ''final'') then handle_final cfg rt st obj
                  else if action = JStr (asc ''tool_call'') then handle_tool_call cfg rt w h st obj
                  else Return (unknown_action_final rt action v)
                         (append_trace st [Unknown_action v]))
             | _ \<Rightarrow> Raise AttributeError st))"

definition step :: "config \<Rightarrow> runtime \<Rightarrow> world \<Rightarrow> hints \<Rightarrow> loop_state \<Rightarrow> step_result" where
  "step cfg rt w h st =
     (case await_model w st of
        Inl (e, st') \<Rightarrow> Raise e st'
      | Inr (text, st') \<Rightarrow> dispatch cfg rt w h st' text)"

text \<open>
  The loop \<open>while True\<close>, by the number of passes: \<open>iterate n\<close> is where the run stands
  after at most \<open>n\<close> passes, \<open>Continue\<close> when it has not left the loop yet.
\<close>

fun iterate ::
  "config \<Rightarrow> runtime \<Rightarrow> world \<Rightarrow> hints \<Rightarrow> nat \<Rightarrow> loop_state \<Rightarrow> step_result"
where
  "iterate cfg rt w h 0 st = Continue st"
| "iterate cfg rt w h (Suc n) st =
     (case step cfg rt w h st of
        Continue st' \<Rightarrow> iterate cfg rt w h n st'
      | Return v st' \<Rightarrow> Return v st'
      | Raise e st' \<Rightarrow> Raise e st')"

definition initial_state :: "config \<Rightarrow> ustr \<Rightarrow> loop_state" where
  "initial_state cfg question =
     \<lparr> messages = [(System, LANG_SPEC cfg), (System, TOOL_SPEC cfg), (User, question)],
       tool_calls = 0, lang_retry = 0, trace = [], invoked = [] \<rparr>"

definition state_of :: "step_result \<Rightarrow> loop_state" where
  "state_of r = (case r of Continue st \<Rightarrow> st | Return _ st \<Rightarrow> st | Raise _ st \<Rightarrow> st)"

text \<open>
  \<open>run_agent\<close> with a bound on the number of passes: the envelope and the trace it
  returns, the exception that leaves it, or \<open>None\<close> when it is still in its loop after
  \<open>fuel\<close> passes.
\<close>

definition run_agent ::
  "config \<Rightarrow> runtime \<Rightarrow> world \<Rightarrow> ustr \<Rightarrow> nat \<Rightarrow> (py_exc + json \<times> trace_entry list) option"
where
  "run_agent cfg rt w question fuel =
     (case iterate cfg rt w (question_hints (rt_unicode rt) question) fuel
             (initial_state cfg question) of
        Continue _ \<Rightarrow> None
      | Return v st \<Rightarrow> Some (Inr (v, trace st))
      | Raise e st \<Rightarrow> Some (Inl e))"

text \<open>The passes of a run that ended with a rejected or an invalid tool call, by its trace.\<close>

definition is_rejection :: "trace_entry \<Rightarrow> bool" where
  "is_rejection e = (case e of Tool_call_rejected _ _ \<Rightarrow> True | Tool_call_invalid _ _ \<Rightarrow> True | _ \<Rightarrow> False)"

definition rejections :: "trace_entry list \<Rightarrow> nat" where
  "rejections tr = length (filter is_rejection tr)"

section \<open>Vocabulary of the statements\<close>

text \<open>
  The brace depth of a text (opening minus closing braces), a text whose depth returns
  to zero for the first time at its last character and which starts with an opening
  brace, and a text in which every brace is matched.
\<close>

definition brace_depth :: "ustr \<Rightarrow> int" where
  "brace_depth s = int (count_list s 123) - int (count_list s 125)"

definition closes_first_at_end :: "ustr \<Rightarrow> bool" where
  "closes_first_at_end b \<longleftrightarrow>
     take 1 b = [123] \<and> brace_depth b = 0
     \<and> list_all (\<lambda>n. 0 < brace_depth (take n b)) [1..<length b]"

definition no_unmatched :: "ustr \<Rightarrow> bool" where
  "no_unmatched s \<longleftrightarrow>
     brace_depth s = 0 \<and> list_all (\<lambda>n. 0 \<le> brace_depth (take n s)) [0..<length s]"

definition never_closes :: "ustr \<Rightarrow> bool" where
  "never_closes t \<longleftrightarrow> list_all (\<lambda>n. 0 < brace_depth (take n t)) [1..<Suc (length t)]"

text \<open>
  Sample instances of the runtime parameters for the concrete runs below.  A decoder and
  an encoder given by a finite table agree with \<open>json.loads\<close> and \<open>json.dumps\<close> on the
  texts and values listed, and only those are decoded or tested in the runs.
  \<open>sample_str\<close> is \<open>str\<close> on strings, \<open>None\<close> and booleans, the values the runs
  format.  The Unicode tables are those of Basic Latin and the Hangul syllables.  No run
  converts a string to a number, and the sample conversions of strings raise.
\<close>

definition table_loads :: "(ustr \<times> json) list \<Rightarrow> ustr \<Rightarrow> json option" where
  "table_loads tbl text = map_of tbl text"

definition table_dumps :: "(json \<times> ustr) list \<Rightarrow> json \<Rightarrow> ustr" where
  "table_dumps tbl v = (case map_of tbl v of Some t \<Rightarrow> t | None \<Rightarrow> [])"

definition sample_str :: "json \<Rightarrow> ustr" where
  "sample_str v =
     (case v of
        JStr s \<Rightarrow> s
      | JNull \<Rightarrow> asc ''None''
      | JBool b \<Rightarrow> (if b then asc ''True'' else asc ''False'')
      | _ \<Rightarrow> [])"

definition sample_unicode :: unicode where
  "sample_unicode =
     \<lparr> u_isalnum = (\<lambda>c. (48 \<le> c \<and> c \<le> 57) \<or> (65 \<le> c \<and> c \<le> 90) \<or> (97 \<le> c \<and> c \<le> 122)
                         \<or> (44032 \<le> c \<and> c \<le> 55203)),
       u_decimal = (\<lambda>c. if 48 \<le> c \<and> c \<le> 57 then Some (c - 48) else None),
       u_lower = map (\<lambda>c. if 65 \<le> c \<and> c \<le> 90 then c + 32 else c) \<rparr>"

definition sample_runtime :: "(ustr \<times> json) list \<Rightarrow> (json \<times> ustr) list \<Rightarrow> runtime" where
  "sample_runtime ltbl dtbl =
     \<lparr> rt_loads = table_loads ltbl, rt_dumps = table_dumps dtbl,
       rt_dumps_indent = table_dumps dtbl, rt_str = sample_str,
       rt_int_of_str = (\<lambda>s. Inl (ValueError (asc ''invalid literal for int()''))),
       rt_float_of_str = (\<lambda>s. Inl (ValueError (asc ''could not convert string to float''))),
       rt_float_of_int = (\<lambda>n. Inr (Fin (of_int n))),
       rt_unicode = sample_unicode \<rparr>"

definition scenario_a_question :: ustr where
  "scenario_a_question =
     asc ''marios-stg-eks '' @ [53364, 47084, 49828, 53552] @ asc '' '' @ [52572, 44540]
     @ asc '' 30'' @ [48516] @ asc '' '' @ [50640, 47084] @ asc '' '' @ [49436, 48708, 49828]"

definition two_object_loads :: "ustr \<Rightarrow> json option" where
  \<open>two_object_loads =
     table_loads [(asc ''{}'', JDict []), (asc ''{"a":1}'', JDict [(asc ''a'', JInt 1)])]\<close>


text \<open>
  A question that names the severity \<open>warn\<close> and no cluster, and a proposed call whose
  \<open>status\<close> is the empty string and whose window is 60 minutes.
\<close>

definition warn_question :: ustr where
  "warn_question = asc ''show warn logs''"

definition blank_status_call :: jdict where
  "blank_status_call =
     [(asc ''action'', JStr (asc ''tool_call'')),
      (asc ''tool'', JStr CURRENT),
      (asc ''args'',
         JDict [(asc ''cluster'', JStr (asc ''marios-prd-eks'')),
                (asc ''status'', JStr []),
                (asc ''window_minutes'', JInt 60)])]"

text \<open>
  Scenario E: a call of a whitelisted tool with empty arguments, and the same call for a
  tool that is not whitelisted.
\<close>

definition empty_args_call :: jdict where
  "empty_args_call =
     [(asc ''action'', JStr (asc ''tool_call'')), (asc ''tool'', JStr CURRENT),
      (asc ''args'', JDict [])]"

definition foreign_tool_call :: jdict where
  "foreign_tool_call =
     [(asc ''action'', JStr (asc ''tool_call'')), (asc ''tool'', JStr (asc ''restart_pods'')),
      (asc ''args'', JDict [])]"

text \<open>
  The invariant of the loop.  \<open>same_counters\<close>: two states agree on the counters, on the
  requests sent and on the number of rejected or invalid calls in the trace.
  \<open>bounded\<close> holds of every state of a run; \<open>running\<close> holds in addition of the state at
  the head of the loop after \<open>n\<close> passes.
\<close>

definition same_counters :: "loop_state \<Rightarrow> loop_state \<Rightarrow> bool" where
  "same_counters st s \<longleftrightarrow>
     tool_calls s = tool_calls st \<and> lang_retry s = lang_retry st \<and> invoked s = invoked st
     \<and> rejections (trace s) = rejections (trace st)"

definition bounded :: "config \<Rightarrow> loop_state \<Rightarrow> bool" where
  "bounded cfg s \<longleftrightarrow>
     int (length (invoked s)) \<le> tool_calls s
     \<and> tool_calls s \<le> max 0 (MAX_TOOL_CALLS cfg)
     \<and> lang_retry s \<le> max 1 (MAX_LANG_RETRY cfg)"

definition running :: "config \<Rightarrow> nat \<Rightarrow> loop_state \<Rightarrow> bool" where
  "running cfg n s \<longleftrightarrow>
     int (length (invoked s)) = tool_calls s
     \<and> tool_calls s \<le> max 0 (MAX_TOOL_CALLS cfg)
     \<and> lang_retry s \<le> max 0 (MAX_LANG_RETRY cfg - 1)
     \<and> int n = tool_calls s + lang_retry s + int (rejections (trace s))"

text \<open>
  Sample worlds and replies for the concrete runs: a backend that gives the same reply to
  every conversation, and a tool service that is down.
\<close>

definition constant_world :: "ustr \<Rightarrow> world" where
  "constant_world reply =
     \<lparr> llm_chat = (\<lambda>ms. Inr reply), http_post = (\<lambda>sent path payload. Inl RequestError) \<rparr>"

definition bare_tool_call_reply :: ustr where
  \<open>bare_tool_call_reply = asc ''{"action":"tool_call"}''\<close>

definition bare_tool_call_runtime :: runtime where
  "bare_tool_call_runtime =
     sample_runtime
       [(bare_tool_call_reply, JDict [(asc ''action'', JStr (asc ''tool_call''))])] []"

definition null_window_reply :: ustr where
  \<open>null_window_reply =
     asc ''{"action":"tool_call","tool":"current_error_services","args":{"cluster":"c","window_minutes":null}}''\<close>

definition null_window_runtime :: runtime where
  "null_window_runtime =
     sample_runtime
       [(null_window_reply,
         JDict [(asc ''action'', JStr (asc ''tool_call'')), (asc ''tool'', JStr CURRENT),
                (asc ''args'',
                   JDict [(asc ''cluster'', JStr (asc ''c'')),
                          (asc ''window_minutes'', JNull)])])] []"

text \<open>A final envelope with a key of two Han characters (U+7D50, U+679C).\<close>

definition han_key_final :: jdict where
  "han_key_final =
     [(asc ''action'', JStr (asc ''final'')), (asc ''title'', JStr (asc ''ok'')),
      ([32080, 26524], JStr (asc ''x''))]"

definition han_key_reply :: ustr where
  \<open>han_key_reply = asc ''{"action":"final","title":"ok","'' @ [32080, 26524] @ asc ''":"x"}''\<close>

definition han_key_runtime :: runtime where
  \<open>han_key_runtime =
     sample_runtime [(han_key_reply, JDict han_key_final)]
       [(JDict han_key_final,
         asc ''{"action": "final", "title": "ok", "'' @ [32080, 26524] @ asc ''": "x"}'')]\<close>

definition step_ok :: "config \<Rightarrow> nat \<Rightarrow> step_result \<Rightarrow> bool" where
  "step_ok cfg n r =
     (case r of Continue s \<Rightarrow> running cfg (Suc n) s
              | Return v s \<Rightarrow> bounded cfg s
              | Raise e s \<Rightarrow> bounded cfg s)"

text \<open>
  Scenario C: a backend that proposes the same valid call every time, and a tool service
  that answers every request with an empty list of services.
\<close>

definition hi_question :: ustr where
  "hi_question = asc ''hi''"

definition valid_call_reply :: ustr where
  \<open>valid_call_reply =
     asc ''{"action":"tool_call","tool":"current_error_services","args":{"cluster":"c"}}''\<close>

definition valid_call_runtime :: runtime where
  "valid_call_runtime =
     sample_runtime
       [(valid_call_reply,
         JDict [(asc ''action'', JStr (asc ''tool_call'')), (asc ''tool'', JStr CURRENT),
                (asc ''args'', JDict [(asc ''cluster'', JStr (asc ''c''))])])] []"

definition scenario_c_world :: world where
  "scenario_c_world =
     \<lparr> llm_chat = (\<lambda>ms. Inr valid_call_reply),
       http_post = (\<lambda>sent path payload.
          Inr (JDict [(asc ''summary'', JStr (asc ''no errors'')), (asc ''services'', JList [])])) \<rparr>"

section \<open>Properties\<close>

subsection \<open>Helper facts\<close>

lemma asc_eq_iff [simp]: "asc a = asc b \<longleftrightarrow> a = b"
  unfolding asc_def by (rule inj_map_eq_map) (rule injI, simp)

lemma asc_eq_Nil [simp]: "asc s = [] \<longleftrightarrow> s = []"
  by (simp add: asc_def)

lemma current_neq_increasing [simp]: "CURRENT \<noteq> INCREASING" "INCREASING \<noteq> CURRENT"
  by (simp_all add: CURRENT_def INCREASING_def)

declare raw_retry_loop.simps [simp del]

lemma map_eq_transfer:
  "map f xs = map f ys \<Longrightarrow> (\<And>x y. x \<in> set xs \<Longrightarrow> f x = f y \<Longrightarrow> g x = g y)
   \<Longrightarrow> map g xs = map g ys"
proof (induction xs arbitrary: ys)
  case Nil
  then show ?case by simp
next
  case (Cons x xs)
  then obtain y ys' where y: "ys = y # ys'" by (cases ys) auto
  have "g x = g y" using Cons.prems y by simp
  moreover have "map g xs = map g ys'" using Cons.IH[of ys'] Cons.prems y by simp
  ultimately show ?case using y by simp
qed

lemma snd_in_snds: "snd p \<in> Basic_BNFs.snds p"
  by (cases p) (simp add: snds.simps)

lemma FALLBACK_ok: "\<not> contains_cjk FALLBACK"
  by (simp add: contains_cjk_def FALLBACK_def asc_def)

lemma skeleton_walk: "json_skeleton (walk x) = json_skeleton x"
  by (induction x) auto

lemma leaves_walk: "json_leaves (walk x) = map fix_str (json_leaves x)"
proof (induction x)
  case (JList xs)
  have h: "map (\<lambda>x. json_leaves (walk x)) xs = map (\<lambda>x. map fix_str (json_leaves x)) xs"
    by (rule map_cong[OF refl]) (simp add: JList)
  show ?case using h by (simp add: map_concat comp_def del: map_eq_conv)
next
  case (JDict kvs)
  have h: "map (\<lambda>x. json_leaves (walk (snd x))) kvs = map (\<lambda>x. map fix_str (json_leaves (snd x))) kvs"
  proof (rule map_cong[OF refl])
    fix kv assume "kv \<in> set kvs"
    then show "json_leaves (walk (snd kv)) = map fix_str (json_leaves (snd kv))"
      using JDict[of kv "snd kv"] by (simp add: snd_in_snds)
  qed
  show ?case using h by (simp add: map_concat comp_def del: map_eq_conv)
qed simp_all

lemma skel_len: "json_skeleton a = json_skeleton b \<Longrightarrow> length (json_leaves a) = length (json_leaves b)"
proof (induction a arbitrary: b)
  case (JList xs)
  then obtain ys where b: "b = JList ys" by (cases b) auto
  with JList.prems have m: "map json_skeleton xs = map json_skeleton ys" by simp
  have h: "map (\<lambda>x. length (json_leaves x)) xs = map (\<lambda>x. length (json_leaves x)) ys"
    using m by (rule map_eq_transfer) (rule JList.IH)
  show ?case using b h by (simp add: length_concat comp_def del: map_eq_conv)
next
  case (JDict kvs)
  then obtain ys where b: "b = JDict ys" by (cases b) auto
  with JDict.prems have m: "map (map_prod id json_skeleton) kvs = map (map_prod id json_skeleton) ys" by simp
  have h: "map (\<lambda>x. length (json_leaves (snd x))) kvs = map (\<lambda>x. length (json_leaves (snd x))) ys"
    using m
  proof (rule map_eq_transfer)
    fix x y assume x: "x \<in> set kvs" and e: "map_prod id json_skeleton x = map_prod id json_skeleton y"
    have "json_skeleton (snd x) = json_skeleton (snd y)" using e by (cases x; cases y) simp
    then show "length (json_leaves (snd x)) = length (json_leaves (snd y))"
      using JDict.IH[of x "snd x" "snd y"] x by (simp add: snd_in_snds)
  qed
  show ?case using b h by (simp add: length_concat comp_def del: map_eq_conv)
qed (case_tac b; simp)+

lemma list_pair_inj:
  "map f xs = map f ys \<Longrightarrow> concat (map g xs) = concat (map g ys)
   \<Longrightarrow> (\<And>x y. x \<in> set xs \<Longrightarrow> f x = f y \<Longrightarrow> length (g x) = length (g y))
   \<Longrightarrow> (\<And>x y. x \<in> set xs \<Longrightarrow> f x = f y \<Longrightarrow> g x = g y \<Longrightarrow> x = y)
   \<Longrightarrow> xs = ys"
proof (induction xs arbitrary: ys)
  case Nil
  then show ?case by simp
next
  case (Cons x xs)
  then obtain y ys' where y: "ys = y # ys'" by (cases ys) auto
  have fxy: "f x = f y" and frest: "map f xs = map f ys'" using Cons.prems(1) y by simp_all
  have len: "length (g x) = length (g y)" using Cons.prems(3)[of x y] fxy by simp
  have app: "g x @ concat (map g xs) = g y @ concat (map g ys')" using Cons.prems(2) y by simp
  have gxy: "g x = g y" and grest: "concat (map g xs) = concat (map g ys')"
    using app len by simp_all
  have "x = y" using Cons.prems(4)[of x y] fxy gxy by simp
  moreover have "xs = ys'"
    using Cons.IH[OF frest grest] Cons.prems(3,4) by simp
  ultimately show ?case using y by simp
qed

lemma skeleton_leaves_inj:
  "json_skeleton a = json_skeleton b \<Longrightarrow> json_leaves a = json_leaves b \<Longrightarrow> a = b"
proof (induction a arbitrary: b)
  case (JList xs)
  then obtain ys where b: "b = JList ys" by (cases b) auto
  have "xs = ys"
  proof (rule list_pair_inj[where f = json_skeleton and g = json_leaves])
    show "map json_skeleton xs = map json_skeleton ys" using JList.prems b by simp
    show "concat (map json_leaves xs) = concat (map json_leaves ys)" using JList.prems b by simp
  qed (auto intro: skel_len JList.IH)
  then show ?case using b by simp
next
  case (JDict kvs)
  then obtain ys where b: "b = JDict ys" by (cases b) auto
  have "kvs = ys"
  proof (rule list_pair_inj[where f = "map_prod id json_skeleton" and g = "\<lambda>kv. json_leaves (snd kv)"])
    show "map (map_prod id json_skeleton) kvs = map (map_prod id json_skeleton) ys"
      using JDict.prems b by simp
    show "concat (map (\<lambda>kv. json_leaves (snd kv)) kvs) = concat (map (\<lambda>kv. json_leaves (snd kv)) ys)"
      using JDict.prems b by (simp add: comp_def)
  next
    fix x y assume "x \<in> set kvs" and e: "map_prod id json_skeleton x = map_prod id json_skeleton y"
    have "json_skeleton (snd x) = json_skeleton (snd y)" using e by (cases x; cases y) simp
    then show "length (json_leaves (snd x)) = length (json_leaves (snd y))" by (rule skel_len)
  next
    fix x y assume x: "x \<in> set kvs" and e: "map_prod id json_skeleton x = map_prod id json_skeleton y"
      and l: "json_leaves (snd x) = json_leaves (snd y)"
    have k: "fst x = fst y" and s: "json_skeleton (snd x) = json_skeleton (snd y)"
      using e by (cases x; cases y; simp)+
    have "snd x = snd y" using JDict.IH[of x "snd x" "snd y"] x s l by (simp add: snd_in_snds)
    then show "x = y" using k by (simp add: prod_eq_iff)
  qed
  then show ?case using b by simp
next
  case (JStr s)
  then show ?case by (cases b) auto
qed (case_tac b; simp)+

text \<open>
  Claim C6.  A string is non-compliant exactly when one of its code points lies in
  U+4E00..U+9FFF.  The sanitizer replaces the non-compliant leaf strings by the fallback
  sentence and nothing else: the leaf strings of the result are those of the envelope,
  each replaced when non-compliant; shape, keys and the other leaves are the same; and
  the result is the only value with these two properties.  The fallback sentence is
  itself compliant.
\<close>

theorem sanitize_replaces_exactly_noncompliant_leaves:
  "(contains_cjk s \<longleftrightarrow> (\<exists>i. i < length s \<and> 19968 \<le> s ! i \<and> s ! i \<le> 40959))
   \<and> json_leaves (sanitize_korean_only x)
       = map (\<lambda>t. if contains_cjk t then FALLBACK else t) (json_leaves x)
   \<and> json_skeleton (sanitize_korean_only x) = json_skeleton x
   \<and> (\<forall>y. json_skeleton y = json_skeleton x
          \<and> json_leaves y = map (\<lambda>t. if contains_cjk t then FALLBACK else t) (json_leaves x)
          \<longleftrightarrow> y = sanitize_korean_only x)
   \<and> \<not> contains_cjk FALLBACK"
proof -
  have a: "contains_cjk s \<longleftrightarrow> (\<exists>i. i < length s \<and> 19968 \<le> s ! i \<and> s ! i \<le> 40959)"
    by (simp add: contains_cjk_def list_ex_length)
  have fx: "fix_str = (\<lambda>t. if contains_cjk t then FALLBACK else t)"
    by (rule ext) (simp add: fix_str_def)
  have b: "json_leaves (sanitize_korean_only x)
       = map (\<lambda>t. if contains_cjk t then FALLBACK else t) (json_leaves x)"
    using leaves_walk[of x] by (simp add: sanitize_korean_only_def fx)
  have c: "json_skeleton (sanitize_korean_only x) = json_skeleton x"
    by (simp add: sanitize_korean_only_def skeleton_walk)
  have d: "\<forall>y. json_skeleton y = json_skeleton x
          \<and> json_leaves y = map (\<lambda>t. if contains_cjk t then FALLBACK else t) (json_leaves x)
          \<longleftrightarrow> y = sanitize_korean_only x"
    using b c skeleton_leaves_inj by metis
  show ?thesis using a b c d FALLBACK_ok by blast
qed

subsection \<open>Structured-object extractor\<close>

lemma brace_depth_Nil [simp]: "brace_depth [] = 0"
  by (simp add: brace_depth_def)

lemma brace_depth_Cons:
  "brace_depth (c # s) = (if c = 123 then 1 else if c = 125 then - 1 else 0) + brace_depth s"
  by (simp add: brace_depth_def)

lemma scan_closes_inner:
  "0 < d \<Longrightarrow> b \<noteq> [] \<Longrightarrow> d + brace_depth b = 0
   \<Longrightarrow> (\<And>n. n < length b \<Longrightarrow> 0 < d + brace_depth (take n b))
   \<Longrightarrow> scan_braces (b @ suffix) d acc = Some (acc @ b)"
proof (induction b arbitrary: d acc)
  case Nil
  then show ?case by simp
next
  case (Cons c b')
  show ?case
  proof (cases "b' = []")
    case True
    with Cons.prems(1,3) show ?thesis
      by (auto simp: brace_depth_Cons brace_depth_def split: if_splits)
  next
    case False
    let ?d' = "d + (if c = 123 then 1 else if c = 125 then - 1 else 0)"
    have "take 1 (c # b') = [c]" by simp
    moreover have "0 < d + brace_depth (take 1 (c # b'))"
      using Cons.prems(4)[of 1] False by (cases b') auto
    ultimately have "0 < d + brace_depth [c]" by simp
    then have pos: "0 < ?d'" by (simp add: brace_depth_Cons)
    have tot: "?d' + brace_depth b' = 0" using Cons.prems(3) by (simp add: brace_depth_Cons)
    have pre: "\<And>n. n < length b' \<Longrightarrow> 0 < ?d' + brace_depth (take n b')"
    proof -
      fix n assume "n < length b'"
      then have "0 < d + brace_depth (take (Suc n) (c # b'))" using Cons.prems(4)[of "Suc n"] by simp
      then show "0 < ?d' + brace_depth (take n b')" by (simp add: brace_depth_Cons)
    qed
    have ih: "scan_braces (b' @ suffix) ?d' (acc @ [c]) = Some ((acc @ [c]) @ b')"
      by (rule Cons.IH[OF pos False tot pre])
    show ?thesis using ih pos by (auto split: if_splits)
  qed
qed

lemma scan_never_closes_inner:
  "0 < d \<Longrightarrow> (\<And>n. n \<le> length t \<Longrightarrow> 0 < d + brace_depth (take n t))
   \<Longrightarrow> scan_braces t d acc = None"
proof (induction t arbitrary: d acc)
  case Nil
  then show ?case by simp
next
  case (Cons c t')
  let ?d' = "d + (if c = 123 then 1 else if c = 125 then - 1 else 0)"
  have "take 1 (c # t') = [c]" by simp
  moreover have "0 < d + brace_depth (take 1 (c # t'))" using Cons.prems(2)[of 1] by simp
  ultimately have "0 < d + brace_depth [c]" by simp
  then have pos: "0 < ?d'" by (simp add: brace_depth_Cons)
  have pre: "\<And>n. n \<le> length t' \<Longrightarrow> 0 < ?d' + brace_depth (take n t')"
  proof -
    fix n assume "n \<le> length t'"
    then have "0 < d + brace_depth (take (Suc n) (c # t'))" using Cons.prems(2)[of "Suc n"] by simp
    then show "0 < ?d' + brace_depth (take n t')" by (simp add: brace_depth_Cons)
  qed
  have ih: "scan_braces t' ?d' (acc @ [c]) = None" by (rule Cons.IH[OF pos pre])
  show ?case using ih pos by (auto split: if_splits)
qed

lemma first_candidate_closes:
  assumes "123 \<notin> set prefix" and "closes_first_at_end b"
  shows "first_candidate (prefix @ b @ suffix) = Some b"
proof -
  from assms(2) obtain b' where b: "b = 123 # b'"
    by (cases b) (auto simp: closes_first_at_end_def)
  have tot: "brace_depth b = 0" and pre: "\<And>n. 1 \<le> n \<Longrightarrow> n < length b \<Longrightarrow> 0 < brace_depth (take n b)"
    using assms(2) by (auto simp: closes_first_at_end_def list_all_iff)
  have ne: "b' \<noteq> []" using tot b by (auto simp: brace_depth_def)
  have drop: "dropWhile (\<lambda>c. c \<noteq> 123) (prefix @ b @ suffix) = b @ suffix"
    using assms(1) b by (induction prefix) auto
  have inner: "scan_braces (b' @ suffix) 1 [123] = Some ([123] @ b')"
  proof (rule scan_closes_inner)
    show "(0::int) < 1" by simp
    show "b' \<noteq> []" by (rule ne)
    show "1 + brace_depth b' = 0" using tot b by (simp add: brace_depth_Cons)
    fix n assume "n < length b'"
    then have "0 < brace_depth (take (Suc n) b)" using pre[of "Suc n"] b by simp
    then show "0 < 1 + brace_depth (take n b')" using b by (simp add: brace_depth_Cons)
  qed
  show ?thesis using drop inner b by (simp add: first_candidate_def)
qed

lemma first_candidate_no_brace: "123 \<notin> set tx \<Longrightarrow> first_candidate tx = None"
proof -
  assume "123 \<notin> set tx"
  then have h: "dropWhile (\<lambda>c. c \<noteq> 123) tx = []" by (induction tx) auto
  show ?thesis unfolding first_candidate_def h by simp
qed

lemma first_candidate_never_closes:
  assumes "never_closes (dropWhile (\<lambda>c. c \<noteq> 123) tx)"
  shows "first_candidate tx = None"
proof (cases "dropWhile (\<lambda>c. c \<noteq> 123) tx")
  case Nil
  show ?thesis unfolding first_candidate_def Nil by simp
next
  case (Cons c t')
  have c: "c = 123" using hd_dropWhile[of "\<lambda>c. c \<noteq> 123" tx] Cons by auto
  have "\<forall>n\<in>set [1..<Suc (length (c # t'))]. 0 < brace_depth (take n (c # t'))"
    using assms unfolding never_closes_def list_all_iff Cons .
  then have pre: "\<And>n. 1 \<le> n \<Longrightarrow> n \<le> length (c # t') \<Longrightarrow> 0 < brace_depth (take n (c # t'))"
    unfolding set_upt by auto
  have "scan_braces t' 1 [123] = None"
  proof (rule scan_never_closes_inner)
    show "(0::int) < 1" by simp
    fix n assume "n \<le> length t'"
    then have "0 < brace_depth (take (Suc n) (c # t'))" using pre[of "Suc n"] by simp
    then show "0 < 1 + brace_depth (take n t')" using c by (simp add: brace_depth_Cons)
  qed
  then show ?thesis using Cons c by (simp add: first_candidate_def)
qed

text \<open>
  Claim C7, as amended.  When the text before the object has no opening brace, and the
  object starts with an opening brace and its brace depth returns to zero for the first
  time at its last character, the extractor hands exactly that object to the decoder,
  whatever follows it.  A text without an opening brace, and a text whose depth never
  returns to zero after the first opening brace, give none.
\<close>

theorem extract_first_balanced_object:
  assumes "123 \<notin> set prefix" and "closes_first_at_end b"
  shows "extract_first_json_object loads (prefix @ b @ suffix) = loads b
    \<and> (123 \<notin> set tx \<longrightarrow> extract_first_json_object loads tx = None)
    \<and> (never_closes (dropWhile (\<lambda>c. c \<noteq> 123) tx)
         \<longrightarrow> extract_first_json_object loads tx = None)"
  using first_candidate_closes[OF assms] first_candidate_no_brace[of tx]
    first_candidate_never_closes[of tx]
  by (simp add: extract_first_json_object_def)


theorem extract_first_balanced_object_witness:
  \<open>extract_first_json_object two_object_loads (asc ''ok: '' @ asc ''{"a":1}'' @ asc '' } and {'')
       = Some (JDict [(asc ''a'', JInt 1)])
   \<and> extract_first_json_object two_object_loads (asc ''not json'') = None
   \<and> extract_first_json_object two_object_loads (asc ''x {"a":{}'') = None\<close>
proof -
  have p: \<open>123 \<notin> set (asc ''ok: '')\<close> by (simp add: asc_def)
  have b: \<open>closes_first_at_end (asc ''{"a":1}'')\<close>
    by (simp add: closes_first_at_end_def asc_def brace_depth_def upt_rec)
  have n: \<open>123 \<notin> set (asc ''not json'')\<close> by (simp add: asc_def)
  have c: \<open>never_closes (dropWhile (\<lambda>c. c \<noteq> 123) (asc ''x {"a":{}''))\<close>
    by (simp add: never_closes_def asc_def brace_depth_def upt_rec)
  have l: \<open>two_object_loads (asc ''{"a":1}'') = Some (JDict [(asc ''a'', JInt 1)])\<close>
    by (simp add: two_object_loads_def table_loads_def asc_def)
  show ?thesis
    using extract_first_balanced_object[OF p b, of two_object_loads \<open>asc '' } and {''\<close>
        \<open>asc ''not json''\<close>]
      extract_first_balanced_object[OF p b, of two_object_loads \<open>[]\<close> \<open>asc ''x {"a":{}''\<close>]
      n c l
    by simp
qed

text \<open>
  Claim C7 as stated fails: a prefix may contain matched braces, and then the first
  balanced region lies in the prefix.  Here the prefix is \<open>{}\<close> and a blank.
\<close>

theorem extract_prefix_with_matched_braces_counterexample:
  \<open>no_unmatched (asc ''{} '') \<and> no_unmatched [] \<and> closes_first_at_end (asc ''{"a":1}'')
   \<and> extract_first_json_object two_object_loads (asc ''{} '' @ asc ''{"a":1}'' @ [])
       = Some (JDict [])
   \<and> two_object_loads (asc ''{"a":1}'') = Some (JDict [(asc ''a'', JInt 1)])
   \<and> extract_first_json_object two_object_loads (asc ''{} '' @ asc ''{"a":1}'' @ [])
       \<noteq> two_object_loads (asc ''{"a":1}'')\<close>
  by (simp add: no_unmatched_def closes_first_at_end_def brace_depth_def asc_def upt_rec
      extract_first_json_object_def first_candidate_def two_object_loads_def table_loads_def)

subsection \<open>Hints of scenario A\<close>

lemma scenario_a_question_points: "scenario_a_question = [109, 97, 114, 105, 111, 115, 45, 115, 116, 103, 45, 101, 107, 115, 32, 53364, 47084, 49828, 53552, 32, 52572, 44540, 32, 51, 48, 48516, 32, 50640, 47084, 32, 49436, 48708, 49828]"
  by (simp add: scenario_a_question_def asc_def)

text \<open>
  Claim C9.  For the question of scenario A the hints are cluster \<open>marios-stg-eks\<close>,
  window 30 minutes, status \<open>error\<close> and no namespace.  They are computed from the
  question alone.  The hypotheses say what the Unicode tables hold for the characters
  of this question: letters, digits and Hangul syllables are alphanumeric, the blank
  and the hyphen are not; the digits are the ASCII digits; the question has no
  upper-case letter.
\<close>

theorem scenario_a_hints:
  assumes "\<forall>c\<in>set scenario_a_question. u_isalnum U c \<longleftrightarrow> c \<noteq> 32 \<and> c \<noteq> 45"
    and "\<forall>c\<in>set scenario_a_question.
           u_decimal U c = (if 48 \<le> c \<and> c \<le> 57 then Some (c - 48) else None)"
    and "u_lower U scenario_a_question = scenario_a_question"
  shows "question_hints U scenario_a_question =
           \<lparr> hinted_cluster = Some (asc ''marios-stg-eks''), hinted_namespace = None,
             hinted_window = Some 30, hinted_status = asc ''error'' \<rparr>"
proof -
  have c: "extract_cluster_from_question U scenario_a_question = Some (asc ''marios-stg-eks'')"
    using assms(1) unfolding scenario_a_question_points
    by (simp add: extract_cluster_from_question_def match_at_def boundary_def is_word_def
        in_class_head_def in_class_tail_def alt_then_b_def lit_match_def ic_match_def
        head_opt_def is_space_def strip_def asc_def)
  have n: "extract_namespace_from_question U scenario_a_question = None"
    using assms(1) unfolding scenario_a_question_points
    by (simp add: extract_namespace_from_question_def match_at_def boundary_def is_word_def
        in_class_head_def in_class_tail_def alt_then_b_def lit_match_def ic_match_def
        head_opt_def is_space_def strip_def asc_def)
  have w: "parse_window_minutes_ko U scenario_a_question = Some 30"
    using assms(2) unfolding scenario_a_question_points
    by (simp add: parse_window_minutes_ko_def is_prefix_def unit_here_def window_units_def
        int_of_digits_def)
  have s: "choose_status_from_question U scenario_a_question = asc ''error''"
    unfolding choose_status_from_question_def assms(3) Let_def unfolding scenario_a_question_points
    by (simp add: is_prefix_def asc_def)
  show ?thesis by (simp add: question_hints_def c n w s)
qed

theorem scenario_a_hints_witness:
  "question_hints sample_unicode scenario_a_question =
     \<lparr> hinted_cluster = Some (asc ''marios-stg-eks''), hinted_namespace = None,
       hinted_window = Some 30, hinted_status = asc ''error'' \<rparr>"
proof (rule scenario_a_hints)
  show "\<forall>c\<in>set scenario_a_question. u_isalnum sample_unicode c \<longleftrightarrow> c \<noteq> 32 \<and> c \<noteq> 45"
    unfolding scenario_a_question_points by (simp add: sample_unicode_def)
  show "\<forall>c\<in>set scenario_a_question.
           u_decimal sample_unicode c = (if 48 \<le> c \<and> c \<le> 57 then Some (c - 48) else None)"
    by (simp add: sample_unicode_def)
  show "u_lower sample_unicode scenario_a_question = scenario_a_question"
    unfolding scenario_a_question_points by (simp add: sample_unicode_def)
qed


subsection \<open>Validation and normalisation\<close>

lemma map_of_dict_set: "map_of (dict_set d k v) = (map_of d)(k \<mapsto> v)"
  by (simp add: dict_set_def update_conv')

lemma dict_get_dict_set: "dict_get (dict_set d k v) k' = (if k' = k then v else dict_get d k')"
  by (simp add: dict_get_def map_of_dict_set)













subsection \<open>Backfill of the hints\<close>

lemma fill_hints_cluster:
  "dict_get (fill_hints h a) (asc ''cluster'') =
     (case hinted_cluster h of
        Some c \<Rightarrow> if c \<noteq> [] \<and> cluster_missing a then JStr c else dict_get a (asc ''cluster'')
      | None \<Rightarrow> dict_get a (asc ''cluster''))"
  by (simp add: fill_hints_def Let_def dict_get_dict_set split: option.splits)

lemma fill_hints_namespace:
  "dict_get (fill_hints h a) (asc ''namespace'') =
     (case hinted_namespace h of
        Some n \<Rightarrow> if n \<noteq> [] \<and> dict_get a (asc ''namespace'') \<in> {JNull, JStr [], JStr (asc ''null'')}
                  then JStr n else dict_get a (asc ''namespace'')
      | None \<Rightarrow> dict_get a (asc ''namespace''))"
  by (simp add: fill_hints_def Let_def dict_get_dict_set split: option.splits)

lemma fill_hints_status:
  "dict_get (fill_hints h a) (asc ''status'') =
     (if hinted_status h \<noteq> [] \<and> dict_get a (asc ''status'') = JNull
      then JStr (hinted_status h) else dict_get a (asc ''status''))"
  by (simp add: fill_hints_def Let_def dict_get_dict_set split: option.splits)

lemma fill_hints_window:
  "hinted_window h = Some m \<Longrightarrow> m \<noteq> 0
   \<Longrightarrow> dict_get (fill_hints h a) (asc ''window_minutes'') = JInt m"
  by (simp add: fill_hints_def Let_def dict_get_dict_set split: option.splits)

lemma fill_hints_other:
  "k \<notin> {asc ''cluster'', asc ''namespace'', asc ''window_minutes'', asc ''status''}
   \<Longrightarrow> dict_get (fill_hints h a) k = dict_get a k"
  by (simp add: fill_hints_def Let_def dict_get_dict_set split: option.splits)

lemma backfill_hints_dict:
  assumes "(if truthy (dict_get obj (asc ''args'')) then dict_get obj (asc ''args'') else JDict [])
           = JDict a"
  shows "\<exists>obj'. backfill_hints h obj = Inr obj'
           \<and> dict_get obj' (asc ''args'') = JDict (fill_hints h a)
           \<and> (\<forall>k. k \<noteq> asc ''args'' \<longrightarrow> dict_get obj' k = dict_get obj k)"
proof (cases "map_of obj (asc ''args'')")
  case None
  then have g: "dict_get obj (asc ''args'') = JNull" by (simp add: dict_get_def)
  then have a: "a = []" using assms by simp
  have m: "map_of (obj @ [(asc ''args'', JDict [])]) = (map_of obj)(asc ''args'' \<mapsto> JDict [])"
    using None by (auto simp: map_add_def fun_eq_iff split: option.splits)
  have "backfill_hints h obj
        = Inr (dict_set (obj @ [(asc ''args'', JDict [])]) (asc ''args'') (JDict (fill_hints h [])))"
    using None by (simp add: backfill_hints_def Let_def dict_get_def map_add_def)
  then show ?thesis using a m None by (simp add: dict_get_def map_of_dict_set)
next
  case (Some v)
  then have g: "dict_get obj (asc ''args'') = v" by (simp add: dict_get_def)
  show ?thesis
  proof (cases "truthy v")
    case True
    then have "v = JDict a" using assms g by simp
    then show ?thesis using Some True g
      by (simp add: backfill_hints_def Let_def dict_get_dict_set)
  next
    case False
    then have "a = []" using assms g by simp
    then show ?thesis using Some False g
      by (simp add: backfill_hints_def Let_def dict_get_dict_set)
  qed
qed

text \<open>
  Claim C4, as amended.  On a proposed call whose \<open>args\<close> is a dict (or falsy, which
  counts as the empty dict) the backfill succeeds and: the cluster hint replaces
  \<open>cluster\<close> exactly when that is not a string that is non-blank after trimming; the
  namespace hint replaces \<open>namespace\<close> exactly when that is absent, null, the empty
  string or the string \<open>null\<close>; the status hint replaces \<open>status\<close> exactly when that
  is absent or null; otherwise these fields keep the proposed value.  A window hint
  other than zero fills an absent \<open>window_minutes\<close>, and without a window hint the
  field keeps its value.  No other key changes.
\<close>

theorem hints_fill_only_missing:
  assumes "(if truthy (dict_get obj (asc ''args'')) then dict_get obj (asc ''args'') else JDict [])
           = JDict a"
  shows "\<exists>obj' a'.
      backfill_hints h obj = Inr obj' \<and> dict_get obj' (asc ''args'') = JDict a'
    \<and> dict_get a' (asc ''cluster'') =
        (case hinted_cluster h of
           Some c \<Rightarrow> if c \<noteq> [] \<and> cluster_missing a then JStr c else dict_get a (asc ''cluster'')
         | None \<Rightarrow> dict_get a (asc ''cluster''))
    \<and> dict_get a' (asc ''namespace'') =
        (case hinted_namespace h of
           Some n \<Rightarrow> if n \<noteq> [] \<and> dict_get a (asc ''namespace'')
                          \<in> {JNull, JStr [], JStr (asc ''null'')}
                     then JStr n else dict_get a (asc ''namespace'')
         | None \<Rightarrow> dict_get a (asc ''namespace''))
    \<and> dict_get a' (asc ''status'') =
        (if hinted_status h \<noteq> [] \<and> dict_get a (asc ''status'') = JNull
         then JStr (hinted_status h) else dict_get a (asc ''status''))
    \<and> (\<forall>m. hinted_window h = Some m \<and> m \<noteq> 0 \<and> dict_get a (asc ''window_minutes'') = JNull
           \<longrightarrow> dict_get a' (asc ''window_minutes'') = JInt m)
    \<and> (hinted_window h = None \<longrightarrow>
          dict_get a' (asc ''window_minutes'') = dict_get a (asc ''window_minutes''))
    \<and> (\<forall>k. k \<notin> {asc ''cluster'', asc ''namespace'', asc ''window_minutes'', asc ''status''}
           \<longrightarrow> dict_get a' k = dict_get a k)"
proof -
  obtain obj' where o: "backfill_hints h obj = Inr obj'"
    "dict_get obj' (asc ''args'') = JDict (fill_hints h a)"
    using backfill_hints_dict[OF assms] by blast
  have w0: "hinted_window h = None \<longrightarrow>
      dict_get (fill_hints h a) (asc ''window_minutes'') = dict_get a (asc ''window_minutes'')"
    by (simp add: fill_hints_def Let_def dict_get_dict_set split: option.splits)
  show ?thesis
    apply (rule exI[of _ obj'], rule exI[of _ "fill_hints h a"])
    apply (intro conjI allI impI)
    subgoal by (rule o(1))
    subgoal by (rule o(2))
    subgoal by (rule fill_hints_cluster)
    subgoal by (rule fill_hints_namespace)
    subgoal by (rule fill_hints_status)
    subgoal for m by (rule fill_hints_window) simp_all
    subgoal using w0 by simp
    subgoal for k by (rule fill_hints_other)
    done
qed

theorem hints_fill_only_missing_witness:
  "\<exists>obj' a'.
      backfill_hints \<lparr> hinted_cluster = Some (asc ''marios-stg-eks''), hinted_namespace = None,
          hinted_window = Some 30, hinted_status = asc ''error'' \<rparr>
        [(asc ''action'', JStr (asc ''tool_call'')), (asc ''tool'', JStr CURRENT)] = Inr obj'
    \<and> dict_get obj' (asc ''args'') = JDict a'
    \<and> dict_get a' (asc ''cluster'') = JStr (asc ''marios-stg-eks'')
    \<and> dict_get a' (asc ''namespace'') = JNull
    \<and> dict_get a' (asc ''status'') = JStr (asc ''error'')
    \<and> dict_get a' (asc ''window_minutes'') = JInt 30"
proof -
  let ?h = "\<lparr> hinted_cluster = Some (asc ''marios-stg-eks''), hinted_namespace = None,
          hinted_window = Some 30, hinted_status = asc ''error'' \<rparr>"
  let ?obj = "[(asc ''action'', JStr (asc ''tool_call'')), (asc ''tool'', JStr CURRENT)]"
  have a: "(if truthy (dict_get ?obj (asc ''args'')) then dict_get ?obj (asc ''args'') else JDict [])
           = JDict []"
    by (simp add: dict_get_def)
  have c: "cluster_missing []" by (simp add: cluster_missing_def dict_get_def)
  have n: "asc ''marios-stg-eks'' \<noteq> []" by (simp add: asc_def)
  have e: "asc ''error'' \<noteq> []" by (simp add: asc_def)
  have g: "dict_get [] k = JNull" for k by (simp add: dict_get_def)
  show ?thesis using hints_fill_only_missing[OF a, of ?h] c n e by (simp add: g) blast
qed

lemma warn_question_hints:
  "question_hints sample_unicode warn_question =
     \<lparr> hinted_cluster = None, hinted_namespace = None, hinted_window = None,
       hinted_status = asc ''warn'' \<rparr>"
  by (simp add: question_hints_def warn_question_def sample_unicode_def asc_def
      extract_cluster_from_question_def extract_namespace_from_question_def
      parse_window_minutes_ko_def choose_status_from_question_def match_at_def boundary_def
      is_word_def in_class_head_def in_class_tail_def alt_then_b_def lit_match_def
      ic_match_def head_opt_def is_space_def is_prefix_def)

text \<open>
  Claim C4 as stated fails: the question names the severity \<open>warn\<close>, so a status hint
  exists; the proposed \<open>status\<close> is blank; the backfill leaves the call as it is.
\<close>

theorem blank_status_not_filled_counterexample:
  "hinted_status (question_hints sample_unicode warn_question) = asc ''warn''
   \<and> dict_get blank_status_call (asc ''args'')
       = JDict [(asc ''cluster'', JStr (asc ''marios-prd-eks'')), (asc ''status'', JStr []),
                (asc ''window_minutes'', JInt 60)]
   \<and> strip [] = []
   \<and> backfill_hints (question_hints sample_unicode warn_question) blank_status_call
       = Inr blank_status_call"
  unfolding warn_question_hints
  by (simp add: blank_status_call_def backfill_hints_def fill_hints_def dict_get_def
      dict_set_def cluster_missing_def strip_def is_space_def asc_def Let_def)

text \<open>
  The window hint is assigned without looking at the proposed value: an explicit window
  of 60 minutes is replaced by the hint.
\<close>

lemma window_hint_replaces_explicit_value:
  "backfill_hints
     \<lparr> hinted_cluster = None, hinted_namespace = None, hinted_window = Some 30,
       hinted_status = asc ''error'' \<rparr> blank_status_call
   = Inr [(asc ''action'', JStr (asc ''tool_call'')),
          (asc ''tool'', JStr CURRENT),
          (asc ''args'',
             JDict [(asc ''cluster'', JStr (asc ''marios-prd-eks'')),
                    (asc ''status'', JStr []),
                    (asc ''window_minutes'', JInt 30)])]"
  by (simp add: blank_status_call_def backfill_hints_def fill_hints_def dict_get_def
      dict_set_def cluster_missing_def strip_def is_space_def asc_def Let_def)

subsection \<open>Missing cluster\<close>

lemma dict_set_same: "dict_get d k = v \<Longrightarrow> v \<noteq> JNull \<Longrightarrow> dict_set d k v = d"
  by (auto simp: dict_get_def dict_set_def update_triv split: option.splits)

lemma norm_cluster_missing: "cluster_missing a \<Longrightarrow> norm_cluster a = Inl (ValueError CLUSTER_ERROR, a)"
  by (auto simp: cluster_missing_def norm_cluster_def split: json.splits)

lemma validate_missing_cluster:
  assumes "dict_get call (asc ''action'') = JStr (asc ''tool_call'')"
    and "dict_get call (asc ''tool'') = JStr CURRENT \<or> dict_get call (asc ''tool'') = JStr INCREASING"
    and "dict_get call (asc ''args'') = JDict a"
    and "cluster_missing a"
  shows "validate_and_normalize_call cfg rt call = Inl (ValueError CLUSTER_ERROR, call)"
proof -
  have n: "normalize_args cfg rt t a = Inl (ValueError CLUSTER_ERROR, a)" for t
    by (simp add: normalize_args_def then_norm_def norm_cluster_missing[OF assms(4)])
  have e: "normalize_args cfg rt t [] = Inl (ValueError CLUSTER_ERROR, [])" for t
    by (simp add: normalize_args_def then_norm_def norm_cluster_def dict_get_def)
  have s: "dict_set call (asc ''args'') (JDict a) = call"
    by (rule dict_set_same[OF assms(3)]) simp
  show ?thesis
    using assms(1,2,3) n e s
    by (cases "a = []") (auto simp: validate_and_normalize_call_def Let_def)
qed

text \<open>
  Claim C8, as amended.  Below the tool-call ceiling, when the backfilled call names a
  whitelisted tool and its \<open>args\<close> have no cluster that is a string and non-blank after
  trimming, validation fails with the error \<open>cluster must be specified explicitly\<close>; the
  loop continues with the call and a corrective message naming the error appended to the
  conversation and a \<open>tool_call_invalid\<close> entry in the trace; no request is sent and the
  counters keep their values.
\<close>

theorem missing_cluster_rejected:
  assumes "tool_calls st < MAX_TOOL_CALLS cfg"
    and "backfill_hints h obj = Inr obj'"
    and "dict_get obj' (asc ''action'') = JStr (asc ''tool_call'')"
    and "dict_get obj' (asc ''tool'') = JStr CURRENT
           \<or> dict_get obj' (asc ''tool'') = JStr INCREASING"
    and "dict_get obj' (asc ''args'') = JDict a'"
    and "cluster_missing a'"
  shows "validate_and_normalize_call cfg rt obj' = Inl (ValueError CLUSTER_ERROR, obj')
    \<and> (\<exists>st'. handle_tool_call cfg rt w h st obj = Continue st'
          \<and> messages st' = messages st
               @ [(Assistant, rt_dumps rt (JDict obj')),
                  (User, asc ''Tool call is invalid: '' @ CLUSTER_ERROR @ INVALID_PROMPT_TAIL)]
          \<and> trace st' = trace st @ [Tool_call_invalid CLUSTER_ERROR (JDict obj')]
          \<and> invoked st' = invoked st \<and> tool_calls st' = tool_calls st
          \<and> lang_retry st' = lang_retry st)"
proof -
  have v: "validate_and_normalize_call cfg rt obj' = Inl (ValueError CLUSTER_ERROR, obj')"
    by (rule validate_missing_cluster[OF assms(3,4,5,6)])
  show ?thesis
    using assms(1,2) v
    by (simp add: handle_tool_call_def append_trace_def append_exchange_def)
qed

theorem missing_cluster_rejected_witness:
  "\<exists>st'. handle_tool_call (default_config [] []) (sample_runtime [] [])
           (constant_world [])
           (question_hints sample_unicode warn_question)
           (initial_state (default_config [] []) warn_question) empty_args_call = Continue st'
      \<and> trace st' = [Tool_call_invalid CLUSTER_ERROR
             (JDict [(asc ''action'', JStr (asc ''tool_call'')), (asc ''tool'', JStr CURRENT),
                     (asc ''args'', JDict [(asc ''status'', JStr (asc ''warn''))])])]
      \<and> invoked st' = [] \<and> tool_calls st' = 0"
proof -
  let ?cfg = "default_config [] []"
  let ?st = "initial_state ?cfg warn_question"
  let ?obj' = "[(asc ''action'', JStr (asc ''tool_call'')), (asc ''tool'', JStr CURRENT),
                     (asc ''args'', JDict [(asc ''status'', JStr (asc ''warn''))])]"
  have 1: "tool_calls ?st < MAX_TOOL_CALLS ?cfg"
    by (simp add: initial_state_def default_config_def)
  have 2: "backfill_hints (question_hints sample_unicode warn_question) empty_args_call = Inr ?obj'"
    unfolding warn_question_hints
    by (simp add: empty_args_call_def backfill_hints_def fill_hints_def dict_get_def
        dict_set_def Let_def asc_def)
  have 3: "dict_get ?obj' (asc ''action'') = JStr (asc ''tool_call'')" by (simp add: dict_get_def)
  have 4: "dict_get ?obj' (asc ''tool'') = JStr CURRENT \<or> dict_get ?obj' (asc ''tool'') = JStr INCREASING"
    by (simp add: dict_get_def)
  have 5: "dict_get ?obj' (asc ''args'') = JDict [(asc ''status'', JStr (asc ''warn''))]"
    by (simp add: dict_get_def)
  have 6: "cluster_missing [(asc ''status'', JStr (asc ''warn''))]"
    by (simp add: cluster_missing_def dict_get_def)
  show ?thesis
    using missing_cluster_rejected[OF 1 2 3 4 5 6, of "sample_runtime [] []" "constant_world []"]
    by (auto simp: initial_state_def)
qed

text \<open>
  Claim C8 as stated fails for a tool that is not whitelisted: the tool is checked before
  the cluster, and the error names the tool.
\<close>

theorem foreign_tool_error_counterexample:
  "backfill_hints (question_hints sample_unicode warn_question) foreign_tool_call
     = Inr [(asc ''action'', JStr (asc ''tool_call'')), (asc ''tool'', JStr (asc ''restart_pods'')),
            (asc ''args'', JDict [(asc ''status'', JStr (asc ''warn''))])]
   \<and> cluster_missing [(asc ''status'', JStr (asc ''warn''))]
   \<and> validate_and_normalize_call (default_config [] []) (sample_runtime [] [])
        [(asc ''action'', JStr (asc ''tool_call'')), (asc ''tool'', JStr (asc ''restart_pods'')),
         (asc ''args'', JDict [(asc ''status'', JStr (asc ''warn''))])]
     = Inl (ValueError (asc ''Tool not allowed: restart_pods''),
            [(asc ''action'', JStr (asc ''tool_call'')), (asc ''tool'', JStr (asc ''restart_pods'')),
             (asc ''args'', JDict [(asc ''status'', JStr (asc ''warn''))])])
   \<and> asc ''Tool not allowed: restart_pods'' \<noteq> CLUSTER_ERROR"
  unfolding warn_question_hints
  by (simp add: foreign_tool_call_def backfill_hints_def fill_hints_def dict_get_def
      dict_set_def Let_def validate_and_normalize_call_def cluster_missing_def
      sample_runtime_def sample_str_def CURRENT_def INCREASING_def CLUSTER_ERROR_def asc_def)

subsection \<open>Invariant of the loop\<close>

lemma same_counters_refl [simp]: "same_counters st st"
  by (simp add: same_counters_def)

lemma rejections_append [simp]: "rejections (a @ b) = rejections a + rejections b"
  by (simp add: rejections_def)

lemma raw_retry_loop_counters:
  "(case raw_retry_loop w st t k of Inl (e, s) \<Rightarrow> same_counters st s
                                  | Inr (t', s) \<Rightarrow> same_counters st s)"
proof (induction w st t k rule: raw_retry_loop.induct)
  case (1 w st t k)
  let ?st' = "append_exchange (append_trace st [Llm_raw_rejected_language t (int k + 1)])
                t RAW_LANGUAGE_PROMPT"
  have s: "same_counters st ?st'"
    by (simp add: same_counters_def append_exchange_def append_trace_def rejections_def
        is_rejection_def)
  show ?case
  proof (cases "contains_cjk t \<and> k < 2")
    case False
    then show ?thesis by (subst raw_retry_loop.simps) auto
  next
    case True
    show ?thesis
    proof (cases "llm_chat w (messages ?st')")
      case (Inl e)
      then show ?thesis using True s by (subst raw_retry_loop.simps) (simp add: Let_def)
    next
      case (Inr t')
      have ih: "(case raw_retry_loop w ?st' t' (k + 1) of Inl (e, s) \<Rightarrow> same_counters ?st' s
                                  | Inr (t'', s) \<Rightarrow> same_counters ?st' s)"
        using "1.IH"[OF True refl Inr] .
      have tr: "same_counters ?st' s \<Longrightarrow> same_counters st s" for s
        using s by (simp add: same_counters_def)
      show ?thesis
        using True Inr ih tr
        by (subst raw_retry_loop.simps) (auto simp: Let_def split: sum.splits)
    qed
  qed
qed

lemma await_model_counters:
  "(case await_model w st of Inl (e, s) \<Rightarrow> same_counters st s
                           | Inr (t', s) \<Rightarrow> same_counters st s)"
proof (cases "llm_chat w (messages st)")
  case (Inl e)
  then show ?thesis by (simp add: await_model_def)
next
  case (Inr t)
  then show ?thesis
    using raw_retry_loop_counters[where w=w and st=st and k=0 and t=t]
    by (simp add: await_model_def)
qed

lemma running_bounded: "running cfg n s \<Longrightarrow> bounded cfg s"
  by (auto simp: running_def bounded_def)

lemma running_same: "same_counters st s \<Longrightarrow> running cfg n st \<Longrightarrow> running cfg n s"
  by (simp add: same_counters_def running_def)

lemma bounded_same: "same_counters st s \<Longrightarrow> bounded cfg st \<Longrightarrow> bounded cfg s"
  by (simp add: same_counters_def bounded_def)

lemma handle_final_ok:
  assumes "running cfg n st"
  shows "step_ok cfg n (handle_final cfg rt st obj)"
  using assms
  by (auto simp: step_ok_def handle_final_def Let_def running_def bounded_def
      append_trace_def append_exchange_def rejections_def is_rejection_def)

lemma run_tool_sent:
  "run_tool w sent tool args = (r, sent') \<Longrightarrow> length sent' \<le> Suc (length sent)"
  by (auto simp: run_tool_def Let_def split: if_splits json.splits sum.splits)

lemma run_tool_sent_ok:
  "run_tool w sent tool args = (Inr res, sent') \<Longrightarrow> length sent' = Suc (length sent)"
  by (auto simp: run_tool_def Let_def split: if_splits json.splits sum.splits)

lemma execute_tool_call_ok:
  assumes "running cfg n st" and "tool_calls st < MAX_TOOL_CALLS cfg"
  shows "step_ok cfg n (execute_tool_call rt w st call)"
proof -
  let ?st1 = "st\<lparr>tool_calls := tool_calls st + 1\<rparr>"
  obtain r sent where rt: "run_tool w (invoked ?st1) (dict_get call (asc ''tool''))
      (dict_get call (asc ''args'')) = (r, sent)" by (cases "run_tool w (invoked ?st1) (dict_get call (asc ''tool'')) (dict_get call (asc ''args''))")
  have le: "length sent \<le> Suc (length (invoked st))" using run_tool_sent[OF rt] by simp
  show ?thesis
  proof (cases r)
    case (Inl e)
    then show ?thesis using assms rt le
      by (auto simp: step_ok_def execute_tool_call_def Let_def running_def bounded_def)
  next
    case (Inr res)
    then have eq: "length sent = Suc (length (invoked st))" using run_tool_sent_ok rt by fastforce
    show ?thesis using assms rt Inr eq
      by (auto simp: step_ok_def execute_tool_call_def Let_def running_def bounded_def
          append_trace_def append_exchange_def rejections_def is_rejection_def
          split: sum.splits)
  qed
qed

lemma handle_tool_call_ok:
  assumes "running cfg n st"
  shows "step_ok cfg n (handle_tool_call cfg rt w h st obj)"
proof (cases "MAX_TOOL_CALLS cfg \<le> tool_calls st")
  case True
  then show ?thesis using assms
    by (auto simp: step_ok_def handle_tool_call_def running_def
        append_trace_def append_exchange_def rejections_def is_rejection_def)
next
  case False
  then have lt: "tool_calls st < MAX_TOOL_CALLS cfg" by simp
  have b: "step_ok cfg n (Raise e st)" for e
    using assms by (simp add: step_ok_def running_bounded)
  have i: "step_ok cfg n (Continue (append_trace (append_exchange st a u) [Tool_call_invalid m o']))"
    for a u m o'
    using assms
    by (auto simp: step_ok_def running_def append_trace_def append_exchange_def
        rejections_def is_rejection_def)
  show ?thesis
    using False b i execute_tool_call_ok[OF assms lt]
    by (auto simp: handle_tool_call_def split: sum.splits prod.splits py_exc.splits)
qed

lemma dispatch_ok:
  assumes "running cfg n st"
  shows "step_ok cfg n (dispatch cfg rt w h st t)"
proof -
  have b: "bounded cfg (append_trace st es)" for es
    using running_bounded[OF assms] by (simp add: bounded_def append_trace_def)
  show ?thesis
    using b handle_final_ok[OF assms] handle_tool_call_ok[OF assms] running_bounded[OF assms]
    by (auto simp: dispatch_def Let_def step_ok_def[of cfg n "Return _ _"]
        step_ok_def[of cfg n "Raise _ _"] split: option.splits json.splits)
qed

lemma step_ok_step:
  assumes "running cfg n st"
  shows "step_ok cfg n (step cfg rt w h st)"
proof (cases "await_model w st")
  case (Inl p)
  obtain e s where p: "p = (e, s)" by (cases p)
  have "same_counters st s" using await_model_counters[where w=w and st=st] Inl p by simp
  then have "bounded cfg s" using bounded_same running_bounded[OF assms] by blast
  then show ?thesis using Inl p by (simp add: step_def step_ok_def)
next
  case (Inr p)
  obtain t s where p: "p = (t, s)" by (cases p)
  have "same_counters st s" using await_model_counters[where w=w and st=st] Inr p by simp
  then have "running cfg n s" using running_same assms by blast
  then show ?thesis using Inr p dispatch_ok by (simp add: step_def)
qed

lemma iterate_ok:
  "running cfg k st \<Longrightarrow>
     (case iterate cfg rt w h n st of
        Continue s \<Rightarrow> running cfg (k + n) s
      | Return v s \<Rightarrow> bounded cfg s
      | Raise e s \<Rightarrow> bounded cfg s)"
proof (induction n arbitrary: k st)
  case 0
  then show ?case by simp
next
  case (Suc n)
  show ?case
  proof (cases "step cfg rt w h st")
    case (Continue s)
    then have "running cfg (Suc k) s" using step_ok_step[OF Suc.prems, of rt w h] by (simp add: step_ok_def)
    then show ?thesis using Suc.IH[of "Suc k" s] Continue by (auto split: step_result.splits)
  next
    case (Return v s)
    then show ?thesis using step_ok_step[OF Suc.prems, of rt w h] by (simp add: step_ok_def)
  next
    case (Raise e s)
    then show ?thesis using step_ok_step[OF Suc.prems, of rt w h] by (simp add: step_ok_def)
  qed
qed

lemma running_initial: "running cfg 0 (initial_state cfg q)"
  by (simp add: running_def initial_state_def rejections_def)

text \<open>
  Claim C2.  With a ceiling that is not negative, after any number of passes, whether
  the run is still in its loop, has returned or has raised, the requests sent to the
  tool service and the counter of executed tool calls are at most \<open>MAX_TOOL_CALLS\<close>.
  And once the counter has reached the ceiling, a reply that decodes to a \<open>tool_call\<close>
  envelope is rejected: the envelope and the instruction to output the final answer are
  appended to the conversation, a \<open>tool_call_rejected\<close> entry with reason
  \<open>limit_reached\<close> to the trace, and nothing else changes: no request is sent, the
  counter keeps its value.
\<close>

theorem tool_call_ceiling:
  assumes "0 \<le> MAX_TOOL_CALLS cfg"
  shows "int (length (invoked (state_of (iterate cfg rt w h n (initial_state cfg q)))))
           \<le> MAX_TOOL_CALLS cfg
    \<and> tool_calls (state_of (iterate cfg rt w h n (initial_state cfg q))) \<le> MAX_TOOL_CALLS cfg
    \<and> (MAX_TOOL_CALLS cfg \<le> tool_calls st
         \<and> extract_first_json_object (rt_loads rt) t = Some (JDict obj) \<and> obj \<noteq> []
         \<and> dict_get obj (asc ''action'') = JStr (asc ''tool_call'')
       \<longrightarrow> dispatch cfg rt w h st t =
             Continue (st\<lparr>messages := messages st
                             @ [(Assistant, rt_dumps rt (JDict obj)), (User, LIMIT_PROMPT)],
                          trace := trace st
                             @ [Tool_call_rejected (asc ''limit_reached'') (JDict obj)]\<rparr>))"
proof -
  let ?r = "iterate cfg rt w h n (initial_state cfg q)"
  have "bounded cfg (state_of ?r)"
    using iterate_ok[OF running_initial[of cfg q], where rt=rt and w=w and h=h and n=n]
    by (auto simp: state_of_def running_bounded split: step_result.splits)
  then have a: "int (length (invoked (state_of ?r))) \<le> MAX_TOOL_CALLS cfg"
    and b: "tool_calls (state_of ?r) \<le> MAX_TOOL_CALLS cfg"
    using assms by (auto simp: bounded_def)
  have c: "MAX_TOOL_CALLS cfg \<le> tool_calls st
         \<and> extract_first_json_object (rt_loads rt) t = Some (JDict obj) \<and> obj \<noteq> []
         \<and> dict_get obj (asc ''action'') = JStr (asc ''tool_call'')
       \<longrightarrow> dispatch cfg rt w h st t =
             Continue (st\<lparr>messages := messages st
                             @ [(Assistant, rt_dumps rt (JDict obj)), (User, LIMIT_PROMPT)],
                          trace := trace st
                             @ [Tool_call_rejected (asc ''limit_reached'') (JDict obj)]\<rparr>)"
    by (simp add: dispatch_def Let_def handle_tool_call_def append_trace_def
        append_exchange_def)
  show ?thesis using a b c by blast
qed

text \<open>
  Claim C1, as amended.  In every run, after any number of passes, at most
  \<open>MAX_TOOL_CALLS\<close> requests were sent to the tool service and the final answer was
  rejected for its language at most \<open>MAX_LANG_RETRY\<close> times (at most none and once when
  the ceilings are lower).  Every pass that returns to awaiting the model executes a tool
  call, re-prompts for the language of the final answer, or records a rejected or an
  invalid tool call; so a run that is still in its loop after \<open>n\<close> passes has recorded
  at least \<open>n\<close> minus the two ceilings rejected or invalid tool calls.  Nothing bounds
  their number.
\<close>

theorem loop_bounded_by_counters_and_rejections:
  "int (length (invoked (state_of (iterate cfg rt w h n (initial_state cfg q)))))
     \<le> max 0 (MAX_TOOL_CALLS cfg)
   \<and> lang_retry (state_of (iterate cfg rt w h n (initial_state cfg q)))
     \<le> max 1 (MAX_LANG_RETRY cfg)
   \<and> (\<forall>s. iterate cfg rt w h n (initial_state cfg q) = Continue s \<longrightarrow>
         int n = tool_calls s + lang_retry s + int (rejections (trace s))
       \<and> tool_calls s \<le> max 0 (MAX_TOOL_CALLS cfg)
       \<and> lang_retry s \<le> max 0 (MAX_LANG_RETRY cfg - 1)
       \<and> int n \<le> max 0 (MAX_TOOL_CALLS cfg) + max 0 (MAX_LANG_RETRY cfg - 1)
                   + int (rejections (trace s)))"
proof -
  let ?r = "iterate cfg rt w h n (initial_state cfg q)"
  note ok = iterate_ok[OF running_initial[of cfg q], where rt=rt and w=w and h=h and n=n]
  have "bounded cfg (state_of ?r)"
    using ok by (auto simp: state_of_def running_bounded split: step_result.splits)
  then have a: "int (length (invoked (state_of ?r))) \<le> max 0 (MAX_TOOL_CALLS cfg)"
    and b: "lang_retry (state_of ?r) \<le> max 1 (MAX_LANG_RETRY cfg)"
    by (auto simp: bounded_def)
  have c: "\<forall>s. ?r = Continue s \<longrightarrow>
         int n = tool_calls s + lang_retry s + int (rejections (trace s))
       \<and> tool_calls s \<le> max 0 (MAX_TOOL_CALLS cfg)
       \<and> lang_retry s \<le> max 0 (MAX_LANG_RETRY cfg - 1)
       \<and> int n \<le> max 0 (MAX_TOOL_CALLS cfg) + max 0 (MAX_LANG_RETRY cfg - 1)
                   + int (rejections (trace s))"
  proof (intro allI impI)
    fix s assume "?r = Continue s"
    then have "running cfg n s" using ok by simp
    then show "int n = tool_calls s + lang_retry s + int (rejections (trace s))
       \<and> tool_calls s \<le> max 0 (MAX_TOOL_CALLS cfg)
       \<and> lang_retry s \<le> max 0 (MAX_LANG_RETRY cfg - 1)
       \<and> int n \<le> max 0 (MAX_TOOL_CALLS cfg) + max 0 (MAX_LANG_RETRY cfg - 1)
                   + int (rejections (trace s))"
      by (auto simp: running_def)
  qed
  show ?thesis using a b c by blast
qed

subsection \<open>Concrete runs\<close>

lemma hi_question_hints:
  "question_hints sample_unicode hi_question =
     \<lparr> hinted_cluster = None, hinted_namespace = None, hinted_window = None,
       hinted_status = asc ''error'' \<rparr>"
  by (simp add: question_hints_def hi_question_def sample_unicode_def asc_def
      extract_cluster_from_question_def extract_namespace_from_question_def
      parse_window_minutes_ko_def choose_status_from_question_def match_at_def boundary_def
      is_word_def in_class_head_def in_class_tail_def alt_then_b_def lit_match_def
      ic_match_def head_opt_def is_space_def is_prefix_def)

lemma no_cjk_bare: "\<not> contains_cjk bare_tool_call_reply"
  by (simp add: contains_cjk_def bare_tool_call_reply_def asc_def)

lemma await_constant_clean:
  "\<not> contains_cjk t \<Longrightarrow> await_model (constant_world t) st = Inr (t, st)"
  by (simp add: await_model_def constant_world_def raw_retry_loop.simps)

lemma extract_bare:
  "extract_first_json_object (rt_loads bare_tool_call_runtime) bare_tool_call_reply
   = Some (JDict [(asc ''action'', JStr (asc ''tool_call''))])"
proof -
  have "first_candidate bare_tool_call_reply = Some bare_tool_call_reply"
    by (simp add: first_candidate_def bare_tool_call_reply_def asc_def)
  then show ?thesis
    by (simp add: extract_first_json_object_def bare_tool_call_runtime_def sample_runtime_def
        table_loads_def)
qed

lemma bare_step:
  assumes "tool_calls st = 0"
  shows "\<exists>st'. step (default_config [] []) bare_tool_call_runtime
           (constant_world bare_tool_call_reply)
           (question_hints sample_unicode hi_question) st = Continue st'
         \<and> tool_calls st' = 0"
  unfolding hi_question_hints step_def await_constant_clean[OF no_cjk_bare]
  using assms
  by (simp add: dispatch_def extract_bare Let_def dict_get_def handle_tool_call_def
      default_config_def backfill_hints_def fill_hints_def dict_set_def
      validate_and_normalize_call_def CURRENT_def INCREASING_def append_trace_def
      append_exchange_def)

lemma bare_iterate:
  "tool_calls st = 0 \<Longrightarrow>
     \<exists>st'. iterate (default_config [] []) bare_tool_call_runtime
           (constant_world bare_tool_call_reply)
           (question_hints sample_unicode hi_question) n st = Continue st'"
proof (induction n arbitrary: st)
  case 0
  then show ?case by simp
next
  case (Suc n)
  obtain st' where s: "step (default_config [] []) bare_tool_call_runtime
           (constant_world bare_tool_call_reply)
           (question_hints sample_unicode hi_question) st = Continue st'" "tool_calls st' = 0"
    using bare_step[OF Suc.prems] by blast
  show ?case using Suc.IH[OF s(2)] s(1) by simp
qed

text \<open>
  Claim C1 as stated fails: a backend that answers every conversation with a tool call
  naming no tool is rejected in every pass, no counter moves, and the loop is still
  running after any number of passes.
\<close>

theorem rejected_calls_keep_the_loop_running_counterexample:
  "\<forall>fuel. run_agent (default_config [] []) bare_tool_call_runtime
            (constant_world bare_tool_call_reply) hi_question fuel = None"
proof
  fix fuel
  have u: "rt_unicode bare_tool_call_runtime = sample_unicode"
    by (simp add: bare_tool_call_runtime_def sample_runtime_def)
  have "tool_calls (initial_state (default_config [] []) hi_question) = 0"
    by (simp add: initial_state_def)
  from bare_iterate[OF this, of fuel] show
    "run_agent (default_config [] []) bare_tool_call_runtime
            (constant_world bare_tool_call_reply) hi_question fuel = None"
    by (auto simp: run_agent_def u)
qed

lemma no_cjk_valid: "\<not> contains_cjk valid_call_reply"
  by (simp add: contains_cjk_def valid_call_reply_def asc_def)

lemma await_scenario_c: "await_model scenario_c_world st = Inr (valid_call_reply, st)"
  using no_cjk_valid
  by (simp add: await_model_def scenario_c_world_def raw_retry_loop.simps)

lemma extract_valid:
  "extract_first_json_object (rt_loads valid_call_runtime) valid_call_reply
   = Some (JDict [(asc ''action'', JStr (asc ''tool_call'')), (asc ''tool'', JStr CURRENT),
                (asc ''args'', JDict [(asc ''cluster'', JStr (asc ''c''))])])"
proof -
  have "first_candidate valid_call_reply = Some valid_call_reply"
    by (simp add: first_candidate_def valid_call_reply_def asc_def)
  then show ?thesis
    by (simp add: extract_first_json_object_def valid_call_runtime_def sample_runtime_def
        table_loads_def)
qed

lemma scenario_c_validated:
  "validate_and_normalize_call (default_config [] []) valid_call_runtime
     [(asc ''action'', JStr (asc ''tool_call'')), (asc ''tool'', JStr CURRENT),
      (asc ''args'', JDict [(asc ''cluster'', JStr (asc ''c'')),
                           (asc ''status'', JStr (asc ''error''))])]
   = Inr [(asc ''action'', JStr (asc ''tool_call'')), (asc ''tool'', JStr CURRENT),
      (asc ''args'', JDict [(asc ''cluster'', JStr (asc ''c'')),
                           (asc ''status'', JStr (asc ''error'')),
                           (asc ''namespace'', JNull),
                           (asc ''window_minutes'', JInt 15),
                           (asc ''limit'', JInt 10)])]"
  by (simp add: validate_and_normalize_call_def dict_get_def
      dict_get_or_def dict_set_def normalize_args_def then_norm_def norm_cluster_def
      norm_status_def norm_namespace_def norm_window_limit_def
      py_int_def clamp_int_def default_config_def INCREASING_def CURRENT_def strip_def
      is_space_def asc_def Let_def)

lemma scenario_c_execute:
  assumes "tool_calls st < 2"
  shows "\<exists>st'. step (default_config [] []) valid_call_runtime scenario_c_world
           (question_hints sample_unicode hi_question) st = Continue st'
         \<and> tool_calls st' = tool_calls st + 1 \<and> lang_retry st' = lang_retry st
         \<and> length (invoked st') = Suc (length (invoked st))
         \<and> rejections (trace st') = rejections (trace st)"
proof -
  have b: "backfill_hints
      \<lparr>hinted_cluster = None, hinted_namespace = None, hinted_window = None,
         hinted_status = asc ''error''\<rparr>
      [(asc ''action'', JStr (asc ''tool_call'')), (asc ''tool'', JStr CURRENT),
       (asc ''args'', JDict [(asc ''cluster'', JStr (asc ''c''))])]
     = Inr [(asc ''action'', JStr (asc ''tool_call'')), (asc ''tool'', JStr CURRENT),
      (asc ''args'', JDict [(asc ''cluster'', JStr (asc ''c'')),
                           (asc ''status'', JStr (asc ''error''))])]"
    by (simp add: backfill_hints_def fill_hints_def dict_get_def dict_set_def Let_def)
  have m: "MAX_TOOL_CALLS (default_config [] []) = 2" by (simp add: default_config_def)
  show ?thesis
    unfolding hi_question_hints step_def await_scenario_c
    using assms
    by (simp add: dispatch_def extract_valid Let_def dict_get_def
        handle_tool_call_def m b scenario_c_validated execute_tool_call_def run_tool_def
        bind_kwargs_def current_params_def scenario_c_world_def compact_tool_result_def
        append_trace_def append_exchange_def rejections_def is_rejection_def)
qed

lemma scenario_c_two_passes:
  "\<exists>st. iterate (default_config [] []) valid_call_runtime scenario_c_world
          (question_hints sample_unicode hi_question) 2
          (initial_state (default_config [] []) hi_question) = Continue st
        \<and> tool_calls st = 2 \<and> lang_retry st = 0 \<and> length (invoked st) = 2
        \<and> rejections (trace st) = 0"
proof -
  let ?s0 = "initial_state (default_config [] []) hi_question"
  have 0: "tool_calls ?s0 = 0" "lang_retry ?s0 = 0" "invoked ?s0 = []" "trace ?s0 = []"
    by (simp_all add: initial_state_def)
  obtain s1 where 1: "step (default_config [] []) valid_call_runtime scenario_c_world
           (question_hints sample_unicode hi_question) ?s0 = Continue s1"
    "tool_calls s1 = 1" "lang_retry s1 = 0" "length (invoked s1) = 1" "rejections (trace s1) = 0"
    using scenario_c_execute[of ?s0] 0 by (auto simp: rejections_def)
  obtain s2 where 2: "step (default_config [] []) valid_call_runtime scenario_c_world
           (question_hints sample_unicode hi_question) s1 = Continue s2"
    "tool_calls s2 = 2" "lang_retry s2 = 0" "length (invoked s2) = 2" "rejections (trace s2) = 0"
    using scenario_c_execute[of s1] 1 by auto
  have "iterate (default_config [] []) valid_call_runtime scenario_c_world
          (question_hints sample_unicode hi_question) 2 ?s0 = Continue s2"
    using 1(1) 2(1) by (simp add: numeral_2_eq_2)
  then show ?thesis using 2 by blast
qed

theorem tool_call_ceiling_witness:
  "int (length (invoked (state_of (iterate (default_config [] []) valid_call_runtime
      scenario_c_world (question_hints sample_unicode hi_question) 3
      (initial_state (default_config [] []) hi_question))))) \<le> 2
   \<and> (\<exists>st. iterate (default_config [] []) valid_call_runtime scenario_c_world
          (question_hints sample_unicode hi_question) 2
          (initial_state (default_config [] []) hi_question) = Continue st
        \<and> tool_calls st = 2
        \<and> dispatch (default_config [] []) valid_call_runtime scenario_c_world
             (question_hints sample_unicode hi_question) st valid_call_reply
           = Continue (st\<lparr>messages := messages st
                 @ [(Assistant, rt_dumps valid_call_runtime
                      (JDict [(asc ''action'', JStr (asc ''tool_call'')),
                              (asc ''tool'', JStr CURRENT),
                              (asc ''args'', JDict [(asc ''cluster'', JStr (asc ''c''))])])),
                    (User, LIMIT_PROMPT)],
               trace := trace st
                 @ [Tool_call_rejected (asc ''limit_reached'')
                      (JDict [(asc ''action'', JStr (asc ''tool_call'')),
                              (asc ''tool'', JStr CURRENT),
                              (asc ''args'', JDict [(asc ''cluster'', JStr (asc ''c''))])])]\<rparr>))"
proof -
  have m: "MAX_TOOL_CALLS (default_config [] []) = 2" by (simp add: default_config_def)
  then have p: "0 \<le> MAX_TOOL_CALLS (default_config [] [])" by simp
  obtain st where st: "iterate (default_config [] []) valid_call_runtime scenario_c_world
          (question_hints sample_unicode hi_question) 2
          (initial_state (default_config [] []) hi_question) = Continue st" "tool_calls st = 2"
    using scenario_c_two_passes by blast
  note t = tool_call_ceiling[OF p, where rt=valid_call_runtime and w=scenario_c_world
      and h="question_hints sample_unicode hi_question" and n=3 and q=hi_question
      and st=st and t=valid_call_reply
      and obj="[(asc ''action'', JStr (asc ''tool_call'')), (asc ''tool'', JStr CURRENT),
                (asc ''args'', JDict [(asc ''cluster'', JStr (asc ''c''))])]"]
  show ?thesis
    using t st extract_valid by (simp add: m dict_get_def)
qed

theorem loop_bounded_by_counters_and_rejections_witness:
  "\<exists>s. iterate (default_config [] []) valid_call_runtime scenario_c_world
          (question_hints sample_unicode hi_question) 2
          (initial_state (default_config [] []) hi_question) = Continue s
      \<and> int 2 = tool_calls s + lang_retry s + int (rejections (trace s))
      \<and> tool_calls s = 2 \<and> int (length (invoked s)) \<le> 2"
proof -
  obtain st where st: "iterate (default_config [] []) valid_call_runtime scenario_c_world
          (question_hints sample_unicode hi_question) 2
          (initial_state (default_config [] []) hi_question) = Continue st" "tool_calls st = 2"
    "length (invoked st) = 2"
    using scenario_c_two_passes by blast
  note t = loop_bounded_by_counters_and_rejections[where cfg="default_config [] []"
      and rt=valid_call_runtime and w=scenario_c_world
      and h="question_hints sample_unicode hi_question" and n=2 and q=hi_question]
  show ?thesis using t st by auto
qed

lemma no_cjk_null_window: "\<not> contains_cjk null_window_reply"
  by (simp add: contains_cjk_def null_window_reply_def asc_def)

lemma extract_null_window:
  "extract_first_json_object (rt_loads null_window_runtime) null_window_reply
   = Some (JDict [(asc ''action'', JStr (asc ''tool_call'')), (asc ''tool'', JStr CURRENT),
                (asc ''args'',
                   JDict [(asc ''cluster'', JStr (asc ''c'')),
                          (asc ''window_minutes'', JNull)])])"
proof -
  have "first_candidate null_window_reply = Some null_window_reply"
    by (simp add: first_candidate_def null_window_reply_def asc_def)
  then show ?thesis
    by (simp add: extract_first_json_object_def null_window_runtime_def sample_runtime_def
        table_loads_def)
qed

lemma null_window_validation:
  "validate_and_normalize_call (default_config [] []) null_window_runtime
     [(asc ''action'', JStr (asc ''tool_call'')), (asc ''tool'', JStr CURRENT),
      (asc ''args'', JDict [(asc ''cluster'', JStr (asc ''c'')),
                           (asc ''window_minutes'', JNull),
                           (asc ''status'', JStr (asc ''error''))])]
   = Inl (TypeError,
      [(asc ''action'', JStr (asc ''tool_call'')), (asc ''tool'', JStr CURRENT),
       (asc ''args'', JDict [(asc ''cluster'', JStr (asc ''c'')),
                            (asc ''window_minutes'', JNull),
                            (asc ''status'', JStr (asc ''error'')),
                            (asc ''namespace'', JNull)])])"
  by (simp add: validate_and_normalize_call_def dict_get_def
      dict_get_or_def dict_set_def normalize_args_def then_norm_def norm_cluster_def
      norm_status_def norm_namespace_def norm_window_limit_def
      py_int_def strip_def is_space_def asc_def Let_def CURRENT_def INCREASING_def)

text \<open>
  Claim C3 fails on the code: the model proposes a call whose \<open>window_minutes\<close> is null;
  \<open>int(None)\<close> raises a \<open>TypeError\<close>, which the \<open>except ValueError\<close> of the loop does
  not catch, and the exception leaves \<open>run_agent\<close> in the first pass.
\<close>

theorem null_window_raises_type_error:
  "run_agent (default_config [] []) null_window_runtime (constant_world null_window_reply)
     hi_question 1 = Some (Inl TypeError)"
proof -
  have u: "rt_unicode null_window_runtime = sample_unicode"
    by (simp add: null_window_runtime_def sample_runtime_def)
  have b: "backfill_hints
      \<lparr>hinted_cluster = None, hinted_namespace = None, hinted_window = None,
         hinted_status = asc ''error''\<rparr>
      [(asc ''action'', JStr (asc ''tool_call'')), (asc ''tool'', JStr CURRENT),
       (asc ''args'', JDict [(asc ''cluster'', JStr (asc ''c'')),
                            (asc ''window_minutes'', JNull)])]
     = Inr [(asc ''action'', JStr (asc ''tool_call'')), (asc ''tool'', JStr CURRENT),
      (asc ''args'', JDict [(asc ''cluster'', JStr (asc ''c'')),
                           (asc ''window_minutes'', JNull),
                           (asc ''status'', JStr (asc ''error''))])]"
    by (simp add: backfill_hints_def fill_hints_def dict_get_def dict_set_def Let_def)
  have m: "MAX_TOOL_CALLS (default_config [] []) = 2" by (simp add: default_config_def)
  have "step (default_config [] []) null_window_runtime (constant_world null_window_reply)
          (question_hints sample_unicode hi_question)
          (initial_state (default_config [] []) hi_question)
        = Raise TypeError (initial_state (default_config [] []) hi_question)"
    unfolding hi_question_hints step_def await_constant_clean[OF no_cjk_null_window]
    by (simp add: dispatch_def extract_null_window Let_def dict_get_def handle_tool_call_def m
        b null_window_validation initial_state_def)
  then show ?thesis by (simp add: run_agent_def u)
qed

lemma cjk_han_key: "contains_cjk han_key_reply"
  by (simp add: contains_cjk_def han_key_reply_def asc_def)

lemma await_constant_cjk:
  "contains_cjk t \<Longrightarrow>
     await_model (constant_world t) st =
       Inr (t, st\<lparr>messages := messages st
                      @ [(Assistant, t), (User, RAW_LANGUAGE_PROMPT), (Assistant, t),
                         (User, RAW_LANGUAGE_PROMPT)],
                   trace := trace st @ [Llm_raw_rejected_language t 1,
                                        Llm_raw_rejected_language t 2]\<rparr>)"
  by (simp add: await_model_def constant_world_def raw_retry_loop.simps Let_def
      append_trace_def append_exchange_def)

lemma extract_han_key:
  "extract_first_json_object (rt_loads han_key_runtime) han_key_reply
   = Some (JDict han_key_final)"
proof -
  have "first_candidate han_key_reply = Some han_key_reply"
    by (simp add: first_candidate_def han_key_reply_def asc_def)
  then show ?thesis
    by (simp add: extract_first_json_object_def han_key_runtime_def sample_runtime_def
        table_loads_def)
qed

lemma han_key_dump_cjk: "contains_cjk (rt_dumps han_key_runtime (JDict han_key_final))"
  by (simp add: han_key_runtime_def sample_runtime_def table_dumps_def contains_cjk_def asc_def)

lemma han_key_action:
  "han_key_final \<noteq> []" "dict_get han_key_final (asc ''action'') = JStr (asc ''final'')"
  by (simp_all add: han_key_final_def dict_get_def)

lemma han_key_step:
  "step (default_config [] []) han_key_runtime (constant_world han_key_reply) h st =
     (let st1 = st\<lparr>messages := messages st
                      @ [(Assistant, han_key_reply), (User, RAW_LANGUAGE_PROMPT),
                         (Assistant, han_key_reply), (User, RAW_LANGUAGE_PROMPT)],
                   trace := trace st @ [Llm_raw_rejected_language han_key_reply 1,
                                        Llm_raw_rejected_language han_key_reply 2,
                                        Final_rejected_language (JDict han_key_final)
                                          (lang_retry st + 1)],
                   lang_retry := lang_retry st + 1\<rparr>
      in if 3 \<le> lang_retry st + 1
         then Return (sanitize_korean_only (JDict han_key_final))
                (st1\<lparr>trace := trace st1
                    @ [Final_sanitized (sanitize_korean_only (JDict han_key_final))]\<rparr>)
         else Continue (st1\<lparr>messages := messages st1
                 @ [(Assistant, rt_dumps han_key_runtime (JDict han_key_final)),
                    (User, FINAL_LANGUAGE_PROMPT)]\<rparr>))"
proof -
  have m: "MAX_LANG_RETRY (default_config [] []) = 3" by (simp add: default_config_def)
  show ?thesis
    unfolding step_def await_constant_cjk[OF cjk_han_key]
    using han_key_dump_cjk han_key_action
    by (simp add: dispatch_def extract_han_key Let_def handle_final_def m
        append_trace_def append_exchange_def)
qed

lemma sanitize_han_key: "sanitize_korean_only (JDict han_key_final) = JDict han_key_final"
  by (simp add: sanitize_korean_only_def han_key_final_def fix_str_def contains_cjk_def asc_def)

text \<open>
  Claim C5 fails on the code: the model answers three times with a final envelope that
  has a key in Han characters; the third rejection exhausts the ceiling, the sanitizer
  walks the values only, and the envelope returned to the caller still contains the key.
\<close>

theorem sanitized_envelope_keeps_han_key:
  "\<exists>tr. run_agent (default_config [] []) han_key_runtime (constant_world han_key_reply)
           hi_question 3 = Some (Inr (JDict han_key_final, tr))
        \<and> last tr = Final_sanitized (JDict han_key_final)
        \<and> json_has_cjk (JDict han_key_final)"
proof -
  have j: "json_has_cjk (JDict han_key_final)"
    by (simp add: han_key_final_def contains_cjk_def asc_def)
  have "\<exists>s. iterate (default_config [] []) han_key_runtime (constant_world han_key_reply)
          h 3 (initial_state (default_config [] []) hi_question)
            = Return (JDict han_key_final) s
          \<and> last (trace s) = Final_sanitized (JDict han_key_final)" for h
    by (simp add: numeral_3_eq_3 han_key_step Let_def initial_state_def sanitize_han_key)
  then obtain s where s: "iterate (default_config [] []) han_key_runtime
      (constant_world han_key_reply) (question_hints (rt_unicode han_key_runtime) hi_question) 3
      (initial_state (default_config [] []) hi_question) = Return (JDict han_key_final) s"
    "last (trace s) = Final_sanitized (JDict han_key_final)"
    by blast
  show ?thesis
    by (rule exI[of _ "trace s"]) (simp add: run_agent_def s j del: json_has_cjk.simps)
qed

subsection \<open>The returned envelope\<close>

text \<open>
  What does hold of the envelope that a run returns: after the sanitizer no leaf string
  has a Han character, and the envelope of every \<open>return\<close> of the loop is a dict whose
  \<open>action\<close> is \<open>final\<close>, never a \<open>tool_call\<close>.
\<close>

lemma sanitized_leaves_compliant:
  "s \<in> set (json_leaves (sanitize_korean_only x)) \<Longrightarrow> \<not> contains_cjk s"
  using FALLBACK_ok by (auto simp: sanitize_korean_only_def leaves_walk fix_str_def)

lemma dict_get_walk:
  "dict_get (map (map_prod id walk) d) k = walk (dict_get d k)"
  by (induction d) (auto simp: dict_get_def)

lemma sanitize_keeps_action_final:
  assumes "dict_get d (asc ''action'') = JStr (asc ''final'')"
  shows "\<exists>d'. sanitize_korean_only (JDict d) = JDict d'
           \<and> dict_get d' (asc ''action'') = JStr (asc ''final'')"
proof -
  have "\<not> contains_cjk (asc ''final'')" by (simp add: contains_cjk_def asc_def)
  then show ?thesis using assms
    by (simp add: sanitize_korean_only_def dict_get_walk fix_str_def)
qed

lemma returned_envelope_is_final:
  assumes "step cfg rt w h st = Return v s"
  shows "\<exists>d. v = JDict d \<and> dict_get d (asc ''action'') = JStr (asc ''final'')"
proof -
  have nj: "dict_get [(asc ''action'', JStr (asc ''final'')), a, b, c, e] (asc ''action'')
             = JStr (asc ''final'')" for a b c e
    by (simp add: dict_get_def)
  have f: "handle_final cfg rt st' obj = Return v s \<Longrightarrow>
             dict_get obj (asc ''action'') = JStr (asc ''final'') \<Longrightarrow> ?thesis" for st' obj
  proof -
    assume r: "handle_final cfg rt st' obj = Return v s"
      and a: "dict_get obj (asc ''action'') = JStr (asc ''final'')"
    from r have "v = JDict obj \<or> v = sanitize_korean_only (JDict obj)"
      by (auto simp: handle_final_def Let_def split: if_splits)
    then show ?thesis using a sanitize_keeps_action_final[OF a] by auto
  qed
  have e: "execute_tool_call rt w st' call \<noteq> Return v s" for st' call
    by (auto simp: execute_tool_call_def Let_def split: prod.splits sum.splits)
  have t: "handle_tool_call cfg rt w h st' obj \<noteq> Return v s" for st' obj
    using e by (auto simp: handle_tool_call_def split: if_splits sum.splits prod.splits py_exc.splits)
  have d: "dispatch cfg rt w h st' tx = Return v s \<Longrightarrow> ?thesis" for st' tx
    using f t nj
    by (auto simp: dispatch_def Let_def no_json_final_def unknown_action_final_def
        split: option.splits if_splits json.splits)
  show ?thesis using assms d
    by (auto simp: step_def split: sum.splits prod.splits)
qed

end
